theory Spec2Isabelle
  imports Main "HOL-Library.AList" "HOL-Library.Word"
begin

section \<open>Byte strings and the Go library functions the mapper calls\<close>

text \<open>
  A Go string is a sequence of bytes, here a \<open>char list\<close>. \<open>strings.ToLower\<close> and
  \<open>strings.ToUpper\<close> first test whether every byte of the string is below \<open>utf8.RuneSelf\<close>
  (0x80); \<open>isASCII\<close> is that test. On such a string they change the letters A to Z (a to z)
  byte by byte and keep the other bytes: this is what \<open>ToLower\<close> and \<open>ToUpper\<close> below do.
  On any other string Go maps the runes by the Unicode tables, which are not given here:
  there \<open>ToLower\<close> and \<open>ToUpper\<close> keep every byte from 0x80 on and so differ from Go.
  The theorems that depend on which metadata keys are equal therefore assume that the
  metadata keys of the rules are ASCII, as gRPC requires of metadata keys.
\<close>

definition upper_letters :: string where
  "upper_letters = ''ABCDEFGHIJKLMNOPQRSTUVWXYZ''"

definition lower_letters :: string where
  "lower_letters = ''abcdefghijklmnopqrstuvwxyz''"

definition digit_bytes :: string where
  "digit_bytes = ''0123456789''"

definition isASCII :: "string \<Rightarrow> bool" where
  "isASCII s = list_all (\<lambda>c. \<not> digit7 c) s"

definition lower_byte :: "char \<Rightarrow> char" where
  "lower_byte c = (case map_of (zip upper_letters lower_letters) c of Some d \<Rightarrow> d | None \<Rightarrow> c)"

definition upper_byte :: "char \<Rightarrow> char" where
  "upper_byte c = (case map_of (zip lower_letters upper_letters) c of Some d \<Rightarrow> d | None \<Rightarrow> c)"

text \<open>
  The transforms \<open>ToLower\<close> and \<open>ToUpper\<close> are \<open>strings.ToLower\<close> and \<open>strings.ToUpper\<close>
  on ASCII strings.
\<close>

definition ToLower :: "string \<Rightarrow> string" where
  "ToLower s = map lower_byte s"

definition ToUpper :: "string \<Rightarrow> string" where
  "ToUpper s = map upper_byte s"

text \<open>
  \<open>strings.TrimSpace\<close> removes leading and trailing white space as Unicode defines it.
  \<open>space_runes\<close> lists the UTF-8 encodings of the white space code points: the six ASCII
  ones, U+0085, U+00A0, U+1680, U+2000 to U+200A, U+2028, U+2029, U+202F, U+205F, U+3000.
\<close>

definition space_runes :: "string list" where
  "space_runes =
     [[CHR 0x09], [CHR 0x0A], [CHR 0x0B], [CHR 0x0C], [CHR 0x0D], [CHR 0x20],
      [CHR 0xC2, CHR 0x85], [CHR 0xC2, CHR 0xA0],
      [CHR 0xE1, CHR 0x9A, CHR 0x80],
      [CHR 0xE2, CHR 0x80, CHR 0x80], [CHR 0xE2, CHR 0x80, CHR 0x81],
      [CHR 0xE2, CHR 0x80, CHR 0x82], [CHR 0xE2, CHR 0x80, CHR 0x83],
      [CHR 0xE2, CHR 0x80, CHR 0x84], [CHR 0xE2, CHR 0x80, CHR 0x85],
      [CHR 0xE2, CHR 0x80, CHR 0x86], [CHR 0xE2, CHR 0x80, CHR 0x87],
      [CHR 0xE2, CHR 0x80, CHR 0x88], [CHR 0xE2, CHR 0x80, CHR 0x89],
      [CHR 0xE2, CHR 0x80, CHR 0x8A],
      [CHR 0xE2, CHR 0x80, CHR 0xA8], [CHR 0xE2, CHR 0x80, CHR 0xA9],
      [CHR 0xE2, CHR 0x80, CHR 0xAF], [CHR 0xE2, CHR 0x81, CHR 0x9F],
      [CHR 0xE3, CHR 0x80, CHR 0x80]]"

function trimLeftRunes :: "string list \<Rightarrow> string \<Rightarrow> string" where
  "trimLeftRunes ws s =
     (case find (\<lambda>w. w \<noteq> [] \<and> take (length w) s = w) ws of
        None \<Rightarrow> s
      | Some w \<Rightarrow> trimLeftRunes ws (drop (length w) s))"
  by pat_completeness auto
termination
proof (relation "measure (\<lambda>(ws, s). length s)")
  show "wf (measure (\<lambda>(ws, s). length s))"
    by simp
next
  fix ws :: "string list" and s w :: string
  assume "find (\<lambda>w. w \<noteq> [] \<and> take (length w) s = w) ws = Some w"
  then have ne: "w \<noteq> []" and tk: "take (length w) s = w"
    by (auto simp: find_Some_iff)
  have "length w = length (take (length w) s)"
    using tk by simp
  also have "\<dots> = min (length s) (length w)"
    by simp
  finally have "length w \<le> length s"
    by arith
  moreover have "0 < length w"
    using ne by simp
  ultimately have "length s - length w < length s"
    by arith
  then show "((ws, drop (length w) s), (ws, s)) \<in> measure (\<lambda>(ws, s). length s)"
    by simp
qed

declare trimLeftRunes.simps [simp del]

definition TrimSpace :: "string \<Rightarrow> string" where
  "TrimSpace s = rev (trimLeftRunes (map rev space_runes) (rev (trimLeftRunes space_runes s)))"

text \<open>\<open>strings.TrimPrefix(s, prefix)\<close>: \<open>s\<close> without the prefix when it starts with it.\<close>

definition TrimPrefix :: "string \<Rightarrow> string \<Rightarrow> string" where
  "TrimPrefix s pre = (if take (length pre) s = pre then drop (length pre) s else s)"

text \<open>
  \<open>textproto.CanonicalMIMEHeaderKey\<close>: a key made of header field bytes only (RFC 7230
  token characters) gets its first letter and every letter after a hyphen in upper case
  and the other letters in lower case; any other key is returned as it is.
\<close>

definition validHeaderFieldByte :: "char \<Rightarrow> bool" where
  "validHeaderFieldByte c =
     (c \<in> set (upper_letters @ lower_letters @ digit_bytes @
        [CHR 0x21, CHR 0x23, CHR 0x24, CHR 0x25, CHR 0x26, CHR 0x27, CHR 0x2A, CHR 0x2B,
         CHR 0x2D, CHR 0x2E, CHR 0x5E, CHR 0x5F, CHR 0x60, CHR 0x7C, CHR 0x7E]))"

fun canonical_bytes :: "bool \<Rightarrow> string \<Rightarrow> string" where
  "canonical_bytes upper [] = []"
| "canonical_bytes upper (c # cs) =
     (let c' = (if upper \<and> c \<in> set lower_letters then upper_byte c
                else if \<not> upper \<and> c \<in> set upper_letters then lower_byte c
                else c)
      in c' # canonical_bytes (c' = CHR 0x2D) cs)"

definition CanonicalMIMEHeaderKey :: "string \<Rightarrow> string" where
  "CanonicalMIMEHeaderKey s =
     (if list_all validHeaderFieldByte s then canonical_bytes True s else s)"

section \<open>HTTP headers and gRPC metadata\<close>

text \<open>
  \<open>http.Header\<close> and \<open>metadata.MD\<close> are both \<open>map[string][]string\<close>. They are association
  lists here, read with \<open>map_of\<close> and written with \<open>AList.update\<close>, so that a \<open>range\<close> loop
  over one has an order to follow (Go leaves the order of the visits open).
  \<open>Header.Get\<close> and \<open>Header.Set\<close> canonicalise the key they are given; \<open>MD.Get\<close> and
  \<open>MD.Set\<close> lower-case it, and \<open>MD.Set\<close> with no value does nothing.
\<close>

type_synonym Header = "(string \<times> string list) list"

definition Header_Get :: "Header \<Rightarrow> string \<Rightarrow> string" where
  "Header_Get h key =
     (case map_of h (CanonicalMIMEHeaderKey key) of
        None \<Rightarrow> []
      | Some vs \<Rightarrow> (case vs of [] \<Rightarrow> [] | v # _ \<Rightarrow> v))"

definition Header_Set :: "Header \<Rightarrow> string \<Rightarrow> string \<Rightarrow> Header" where
  "Header_Set h key v = AList.update (CanonicalMIMEHeaderKey key) [v] h"

type_synonym MD = "(string \<times> string list) list"

text \<open>\<open>metadata.New(map[string]string{})\<close>\<close>

definition MD_New :: MD where
  "MD_New = []"

definition MD_Get :: "MD \<Rightarrow> string \<Rightarrow> string list" where
  "MD_Get md k = (case map_of md (ToLower k) of None \<Rightarrow> [] | Some vs \<Rightarrow> vs)"

definition MD_Set :: "MD \<Rightarrow> string \<Rightarrow> string list \<Rightarrow> MD" where
  "MD_Set md k vals = (if length vals = 0 then md else AList.update (ToLower k) vals md)"

section \<open>Transformation functions\<close>

type_synonym TransformFunc = "string \<Rightarrow> string"

definition AddPrefix :: "string \<Rightarrow> TransformFunc" where
  "AddPrefix pre v = pre @ v"

definition RemovePrefix :: "string \<Rightarrow> TransformFunc" where
  "RemovePrefix pre v = TrimPrefix v pre"

text \<open>A \<open>TransformFunc\<close> may be nil: the elements of the chain are options.\<close>

definition ChainTransforms :: "TransformFunc option list \<Rightarrow> TransformFunc" where
  "ChainTransforms transforms v =
     foldl (\<lambda>result transform. case transform of None \<Rightarrow> result | Some f \<Rightarrow> f result)
       v transforms"

section \<open>Mappings, configuration and the mapper\<close>

text \<open>\<open>MappingDirection\<close> is an \<open>int\<close> with three named values.\<close>

type_synonym MappingDirection = int

abbreviation Incoming :: MappingDirection where
  "Incoming \<equiv> 0"

abbreviation Outgoing :: MappingDirection where
  "Outgoing \<equiv> 1"

abbreviation Bidirectional :: MappingDirection where
  "Bidirectional \<equiv> 2"

record HeaderMapping =
  HTTPHeader :: string
  GRPCMetadata :: string
  Direction :: MappingDirection
  Transform :: "TransformFunc option"
  Required :: bool
  DefaultValue :: string

record Config =
  Mappings :: "HeaderMapping list"
  SkipPaths :: "string list"
  CaseSensitive :: bool
  OverwriteExisting :: bool
  Debug :: bool

text \<open>The zero value \<open>Config{}\<close>.\<close>

definition zero_Config :: Config where
  "zero_Config =
     \<lparr>Mappings = [], SkipPaths = [], CaseSensitive = False, OverwriteExisting = False,
      Debug = False\<rparr>"

text \<open>
  \<open>HeaderMapper\<close>: \<open>config\<close> is a pointer that may be nil; \<open>skipPaths\<close> is a
  \<open>map[string]bool\<close> that is only ever indexed, and a missing key reads as false. The
  \<open>logger\<close> field is not a field of the model: every call of a logger method is
  appended to a trace that the operations return.
\<close>

record HeaderMapper =
  config :: "Config option"
  skipPaths :: "string \<Rightarrow> bool"

datatype log_call =
  Debug_log string "MD option"
  | Warn_log string string

datatype panic = NilPointerDereference

definition NewHeaderMapper :: "Config option \<Rightarrow> HeaderMapper" where
  "NewHeaderMapper config0 =
     (let cfg = (case config0 of None \<Rightarrow> zero_Config | Some c \<Rightarrow> c)
      in \<lparr>config = Some cfg,
          skipPaths = foldl (\<lambda>sp path. sp(path := True)) (\<lambda>_. False) (SkipPaths cfg)\<rparr>)"

record Request =
  URL_Path :: string
  Header :: Header

text \<open>
  Both directions apply the optional transformation with the same statement:
  \<open>if mapping.Transform != nil { headerValue = mapping.Transform(headerValue) }\<close>.
\<close>

definition applyTransform :: "HeaderMapping \<Rightarrow> string \<Rightarrow> string" where
  "applyTransform mapping headerValue =
     (case Transform mapping of None \<Rightarrow> headerValue | Some f \<Rightarrow> f headerValue)"

text \<open>
  \<open>mapIncomingHeader\<close>, with \<open>hm.config\<close> already dereferenced (its callers range over
  \<open>hm.config.Mappings\<close> first), the metadata and the logger's trace passed in and returned.
\<close>

definition mapIncomingHeader ::
  "Config \<Rightarrow> Request \<Rightarrow> HeaderMapping \<Rightarrow> MD \<times> log_call list \<Rightarrow> MD \<times> log_call list" where
  "mapIncomingHeader cfg req mapping s =
     (case s of (md, log) \<Rightarrow>
        let headerValue0 = Header_Get (Header req) (HTTPHeader mapping);
            headerValue1 = (if headerValue0 = [] \<and> DefaultValue mapping \<noteq> []
                            then DefaultValue mapping else headerValue0)
        in if headerValue1 = [] \<and> Required mapping
           then (md, log @ [Warn_log ''Required header missing:'' (HTTPHeader mapping)])
           else if headerValue1 = [] then (md, log)
           else let headerValue2 = applyTransform mapping headerValue1
                in if \<not> OverwriteExisting cfg \<and> length (MD_Get md (GRPCMetadata mapping)) > 0
                   then (md, log)
                   else (MD_Set md (GRPCMetadata mapping) [headerValue2], log))"

fun incoming_loop ::
  "Config \<Rightarrow> Request \<Rightarrow> HeaderMapping list \<Rightarrow> MD \<times> log_call list \<Rightarrow> MD \<times> log_call list" where
  "incoming_loop cfg req [] s = s"
| "incoming_loop cfg req (mapping # rest) s =
     (if Direction mapping = Outgoing then incoming_loop cfg req rest s
      else incoming_loop cfg req rest (mapIncomingHeader cfg req mapping s))"

definition MetadataAnnotator :: "HeaderMapper \<Rightarrow> Request \<Rightarrow> panic + (MD \<times> log_call list)" where
  "MetadataAnnotator hm req =
     (if skipPaths hm (URL_Path req) then Inr (MD_New, [])
      else case config hm of
             None \<Rightarrow> Inl NilPointerDereference
           | Some cfg \<Rightarrow>
               (case incoming_loop cfg req (Mappings cfg) (MD_New, []) of
                  (md, log) \<Rightarrow>
                    Inr (md, if Debug cfg
                             then log @ [Debug_log ''Mapped incoming headers:'' (Some md)]
                             else log)))"

text \<open>
  \<open>mapOutgoingHeader\<close>: the response writer's header is passed in and returned. The
  first block either returns (\<open>Inl\<close>, with the state it returns) or goes on with the
  values to use (\<open>Inr\<close>); these are never empty where \<open>values[0]\<close> is read.
\<close>

definition mapOutgoingHeader ::
  "Config \<Rightarrow> MD \<Rightarrow> HeaderMapping \<Rightarrow> Header \<times> log_call list \<Rightarrow> Header \<times> log_call list" where
  "mapOutgoingHeader cfg md mapping s =
     (case s of (w, log) \<Rightarrow>
        let values0 = MD_Get md (GRPCMetadata mapping) in
        case (if length values0 = 0
              then (if DefaultValue mapping \<noteq> [] then Inr [DefaultValue mapping]
                    else if Required mapping
                    then Inl (w, log @ [Warn_log ''Required metadata missing:''
                                           (GRPCMetadata mapping)])
                    else Inl (w, log))
              else Inr values0) of
          Inl returned \<Rightarrow> returned
        | Inr values1 \<Rightarrow>
            (case values1 of
               [] \<Rightarrow> (w, log)
             | headerValue1 # _ \<Rightarrow>
                 let headerValue2 = applyTransform mapping headerValue1
                 in if \<not> OverwriteExisting cfg \<and> Header_Get w (HTTPHeader mapping) \<noteq> []
                    then (w, log)
                    else (Header_Set w (HTTPHeader mapping) headerValue2, log)))"

fun outgoing_loop ::
  "Config \<Rightarrow> MD \<Rightarrow> HeaderMapping list \<Rightarrow> Header \<times> log_call list \<Rightarrow> Header \<times> log_call list" where
  "outgoing_loop cfg md [] s = s"
| "outgoing_loop cfg md (mapping # rest) s =
     (if Direction mapping = Incoming then outgoing_loop cfg md rest s
      else outgoing_loop cfg md rest (mapOutgoingHeader cfg md mapping s))"

text \<open>
  The call context: the metadata attached by \<open>metadata.NewIncomingContext\<close> and the
  \<open>runtime.ServerMetadata\<close> of the gateway, each of which may be missing.
\<close>

record ServerMetadata =
  HeaderMD :: MD
  TrailerMD :: MD

record Context =
  incomingMD :: "MD option"
  serverMetadata :: "ServerMetadata option"

text \<open>\<open>ResponseModifier\<close> always returns a nil error; the result is the header written.\<close>

definition ResponseModifier ::
  "HeaderMapper \<Rightarrow> Context \<Rightarrow> Header \<Rightarrow> panic + (Header \<times> log_call list)" where
  "ResponseModifier hm ctx w =
     (case serverMetadata ctx of
        None \<Rightarrow> Inr (w, [])
      | Some md \<Rightarrow>
          (case config hm of
             None \<Rightarrow> Inl NilPointerDereference
           | Some cfg \<Rightarrow>
               (case outgoing_loop cfg (HeaderMD md) (Mappings cfg) (w, []) of
                  (w', log) \<Rightarrow>
                    Inr (w', if Debug cfg
                             then log @ [Debug_log ''Mapped outgoing headers to response'' None]
                             else log))))"

subsection \<open>The gRPC interceptors\<close>

text \<open>
  \<open>metadata.FromIncomingContext\<close> returns a copy of the attached metadata with every key
  in lower case; \<open>metadata.NewIncomingContext\<close> attaches metadata to a context.
\<close>

definition FromIncomingContext :: "Context \<Rightarrow> MD option" where
  "FromIncomingContext ctx =
     (case incomingMD ctx of
        None \<Rightarrow> None
      | Some raw \<Rightarrow> Some (foldl (\<lambda>out (k, v). AList.update (ToLower k) v out) [] raw))"

definition NewIncomingContext :: "Context \<Rightarrow> MD \<Rightarrow> Context" where
  "NewIncomingContext ctx md = ctx\<lparr>incomingMD := Some md\<rparr>"

text \<open>
  \<open>processIncomingMetadata\<close>: the loop over the mappings has an empty body (a comment says
  that the metadata is already processed by \<open>MetadataAnnotator\<close>).
\<close>

definition processIncomingMetadata :: "HeaderMapper \<Rightarrow> Context \<Rightarrow> panic + Context" where
  "processIncomingMetadata hm ctx =
     (case FromIncomingContext ctx of
        None \<Rightarrow> Inr ctx
      | Some md \<Rightarrow>
          let newMD0 = foldl (\<lambda>newMD (k, v). MD_Set newMD k v) MD_New md in
          (case config hm of
             None \<Rightarrow> Inl NilPointerDereference
           | Some cfg \<Rightarrow>
               let newMD1 = foldl (\<lambda>newMD mapping.
                                     if Direction mapping = Outgoing then newMD else newMD)
                              newMD0 (Mappings cfg)
               in Inr (NewIncomingContext ctx newMD1)))"

record UnaryServerInfo =
  FullMethod :: string

record StreamServerInfo =
  FullMethod :: string
  IsClientStream :: bool
  IsServerStream :: bool

text \<open>A server stream, as far as the interceptor reads it: its context.\<close>

record ServerStream =
  stream_Context :: Context

definition UnaryServerInterceptor ::
  "HeaderMapper \<Rightarrow> Context \<Rightarrow> 'req \<Rightarrow> UnaryServerInfo \<Rightarrow> (Context \<Rightarrow> 'req \<Rightarrow> 'resp)
     \<Rightarrow> panic + 'resp" where
  "UnaryServerInterceptor hm ctx req info handler =
     (if skipPaths hm (UnaryServerInfo.FullMethod info) then Inr (handler ctx req)
      else case processIncomingMetadata hm ctx of
             Inl p \<Rightarrow> Inl p
           | Inr newCtx \<Rightarrow> Inr (handler newCtx req))"

definition StreamServerInterceptor ::
  "HeaderMapper \<Rightarrow> 'srv \<Rightarrow> ServerStream \<Rightarrow> StreamServerInfo \<Rightarrow> ('srv \<Rightarrow> ServerStream \<Rightarrow> 'err)
     \<Rightarrow> panic + 'err" where
  "StreamServerInterceptor hm srv ss info handler =
     (if skipPaths hm (StreamServerInfo.FullMethod info) then Inr (handler srv ss)
      else case processIncomingMetadata hm (stream_Context ss) of
             Inl p \<Rightarrow> Inl p
           | Inr newCtx \<Rightarrow> Inr (handler srv (ss\<lparr>stream_Context := newCtx\<rparr>)))"

subsection \<open>Validation\<close>

datatype validation_error =
  ConfigurationIsNil
  | HTTPHeaderEmpty nat
  | GRPCMetadataEmpty nat
  | DuplicateMapping string MappingDirection MappingDirection

fun Validate_loop :: "nat \<Rightarrow> HeaderMapping list \<Rightarrow> validation_error option" where
  "Validate_loop i [] = None"
| "Validate_loop i (mapping # rest) =
     (if HTTPHeader mapping = [] then Some (HTTPHeaderEmpty i)
      else if GRPCMetadata mapping = [] then Some (GRPCMetadataEmpty i)
      else Validate_loop (Suc i) rest)"

definition Validate :: "HeaderMapper \<Rightarrow> validation_error option" where
  "Validate hm =
     (case config hm of
        None \<Rightarrow> Some ConfigurationIsNil
      | Some cfg \<Rightarrow> Validate_loop 0 (Mappings cfg))"

text \<open>The key of the \<open>seen\<close> map is \<open>fmt.Sprintf("%s->%s", HTTPHeader, GRPCMetadata)\<close>.\<close>

definition mapping_key :: "HeaderMapping \<Rightarrow> string" where
  "mapping_key mapping = HTTPHeader mapping @ ''->'' @ GRPCMetadata mapping"

fun ValidateConfig_loop ::
  "nat \<Rightarrow> (string \<rightharpoonup> HeaderMapping) \<Rightarrow> HeaderMapping list \<Rightarrow> validation_error option" where
  "ValidateConfig_loop i seen [] = None"
| "ValidateConfig_loop i seen (mapping # rest) =
     (if HTTPHeader mapping = [] then Some (HTTPHeaderEmpty i)
      else if GRPCMetadata mapping = [] then Some (GRPCMetadataEmpty i)
      else case seen (mapping_key mapping) of
             Some existing \<Rightarrow>
               Some (DuplicateMapping (mapping_key mapping) (Direction existing) (Direction mapping))
           | None \<Rightarrow> ValidateConfig_loop (Suc i) (seen(mapping_key mapping \<mapsto> mapping)) rest)"

definition ValidateConfig :: "Config option \<Rightarrow> validation_error option" where
  "ValidateConfig config0 =
     (case config0 of
        None \<Rightarrow> Some ConfigurationIsNil
      | Some cfg \<Rightarrow> ValidateConfig_loop 0 Map.empty (Mappings cfg))"

subsection \<open>Statistics\<close>

text \<open>
  \<open>GetStats\<close> builds a new \<open>Stats\<close> value on every call: the three \<open>int64\<close> counters are
  zero and \<open>LastUpdated\<close> is the reading of the clock, a parameter here.
\<close>

record Stats =
  IncomingMappings :: "64 word"
  OutgoingMappings :: "64 word"
  FailedMappings :: "64 word"
  LastUpdated :: nat

definition GetStats :: "HeaderMapper \<Rightarrow> nat \<Rightarrow> Stats" where
  "GetStats hm now =
     \<lparr>IncomingMappings = 0, OutgoingMappings = 0, FailedMappings = 0, LastUpdated = now\<rparr>"

subsection \<open>The builder\<close>

text \<open>\<open>Builder\<close> holds a pointer to the configuration it builds; a nil pointer panics.\<close>

record Builder =
  builder_config :: "Config option"

definition NewBuilder :: Builder where
  "NewBuilder = \<lparr>builder_config = Some zero_Config\<rparr>"

text \<open>
  The composite literal of \<open>AddMapping\<close>: the three fields given, the others zero.
\<close>

definition new_HeaderMapping :: "string \<Rightarrow> string \<Rightarrow> MappingDirection \<Rightarrow> HeaderMapping" where
  "new_HeaderMapping httpHeader grpcMetadata direction =
     \<lparr>HTTPHeader = httpHeader, GRPCMetadata = grpcMetadata, Direction = direction,
      Transform = None, Required = False, DefaultValue = []\<rparr>"

definition AddMapping :: "string \<Rightarrow> string \<Rightarrow> MappingDirection \<Rightarrow> Builder \<Rightarrow> panic + Builder" where
  "AddMapping httpHeader grpcMetadata direction b =
     (case builder_config b of
        None \<Rightarrow> Inl NilPointerDereference
      | Some c \<Rightarrow>
          Inr (b\<lparr>builder_config := Some (c\<lparr>Mappings := Mappings c @
                 [new_HeaderMapping httpHeader grpcMetadata direction]\<rparr>)\<rparr>))"

definition WithTransform :: "TransformFunc option \<Rightarrow> Builder \<Rightarrow> panic + Builder" where
  "WithTransform transform b =
     (case builder_config b of
        None \<Rightarrow> Inl NilPointerDereference
      | Some c \<Rightarrow>
          if length (Mappings c) > 0
          then Inr (b\<lparr>builder_config := Some (c\<lparr>Mappings := (Mappings c)
                 [length (Mappings c) - 1 :=
                    (Mappings c ! (length (Mappings c) - 1))\<lparr>Transform := transform\<rparr>]\<rparr>)\<rparr>)
          else Inr b)"

definition WithRequired :: "bool \<Rightarrow> Builder \<Rightarrow> panic + Builder" where
  "WithRequired required b =
     (case builder_config b of
        None \<Rightarrow> Inl NilPointerDereference
      | Some c \<Rightarrow>
          if length (Mappings c) > 0
          then Inr (b\<lparr>builder_config := Some (c\<lparr>Mappings := (Mappings c)
                 [length (Mappings c) - 1 :=
                    (Mappings c ! (length (Mappings c) - 1))\<lparr>Required := required\<rparr>]\<rparr>)\<rparr>)
          else Inr b)"

definition WithDefault :: "string \<Rightarrow> Builder \<Rightarrow> panic + Builder" where
  "WithDefault defaultValue b =
     (case builder_config b of
        None \<Rightarrow> Inl NilPointerDereference
      | Some c \<Rightarrow>
          if length (Mappings c) > 0
          then Inr (b\<lparr>builder_config := Some (c\<lparr>Mappings := (Mappings c)
                 [length (Mappings c) - 1 :=
                    (Mappings c ! (length (Mappings c) - 1))\<lparr>DefaultValue := defaultValue\<rparr>]\<rparr>)\<rparr>)
          else Inr b)"

definition Build :: "Builder \<Rightarrow> HeaderMapper" where
  "Build b = NewHeaderMapper (builder_config b)"

subsection \<open>Example data\<close>

text \<open>
  Rules, requests and contexts of the repository's tests (\<open>TestHeaderMapper_MetadataAnnotator\<close>,
  \<open>TestHeaderMapper_ResponseModifier\<close>, \<open>TestHeaderMapper_UnaryServerInterceptor\<close>) and of
  the examples of the documentation, used to run the model.
\<close>

definition config_of :: "HeaderMapping list \<Rightarrow> Config" where
  "config_of ms = zero_Config\<lparr>Mappings := ms\<rparr>"

definition rule_auth :: HeaderMapping where
  "rule_auth = (new_HeaderMapping ''Authorization'' ''auth-token'' Incoming)
                 \<lparr>Transform := Some (RemovePrefix ''Bearer '')\<rparr>"

definition rule_required :: HeaderMapping where
  "rule_required = (new_HeaderMapping ''X-Required'' ''required'' Incoming)\<lparr>Required := True\<rparr>"

definition rule_user :: HeaderMapping where
  "rule_user = new_HeaderMapping ''X-User-ID'' ''user-id'' Incoming"

definition rule_user_lower :: HeaderMapping where
  "rule_user_lower = new_HeaderMapping ''x-user-id'' ''user-id'' Incoming"

definition rule_optional :: HeaderMapping where
  "rule_optional = (new_HeaderMapping ''X-Optional'' ''optional'' Bidirectional)
                     \<lparr>Transform := Some ToUpper, Required := True,
                      DefaultValue := ''default-value''\<rparr>"

definition rule_optional_incoming :: HeaderMapping where
  "rule_optional_incoming = rule_optional\<lparr>Direction := Incoming\<rparr>"

definition rule_processing_time :: HeaderMapping where
  "rule_processing_time = (new_HeaderMapping ''X-Processing-Time'' ''processing-time'' Outgoing)
                            \<lparr>Transform := Some (AddPrefix ''Duration: '')\<rparr>"

definition request_auth :: Request where
  "request_auth =
     \<lparr>URL_Path = ''/api/test'', Header = [(''Authorization'', [''Bearer abc123''])]\<rparr>"

definition request_user :: Request where
  "request_user = \<lparr>URL_Path = ''/api/test'', Header = [(''X-User-Id'', [''12345''])]\<rparr>"

definition request_health :: Request where
  "request_health = \<lparr>URL_Path = ''/health'', Header = [(''X-User-Id'', [''12345''])]\<rparr>"

definition request_plain :: Request where
  "request_plain = \<lparr>URL_Path = ''/api/test'', Header = []\<rparr>"

definition request_auth_empty :: Request where
  "request_auth_empty = \<lparr>URL_Path = ''/api/test'', Header = [(''Authorization'', [''''])]\<rparr>"

definition request_optional_empty :: Request where
  "request_optional_empty = \<lparr>URL_Path = ''/api/test'', Header = [(''X-Optional'', [''''])]\<rparr>"

definition context_optional_empty :: Context where
  "context_optional_empty =
     \<lparr>incomingMD = None,
      serverMetadata = Some \<lparr>HeaderMD = [(''optional'', [''''])], TrailerMD = []\<rparr>\<rparr>"

definition context_user :: Context where
  "context_user = \<lparr>incomingMD = Some [(''x-user-id'', [''12345''])], serverMetadata = None\<rparr>"

definition context_response :: Context where
  "context_response =
     \<lparr>incomingMD = None,
      serverMetadata = Some \<lparr>HeaderMD = [(''processing-time'', [''200ms'', ''300ms''])],
                             TrailerMD = []\<rparr>\<rparr>"

section \<open>Library facts\<close>

lemma MD_Get_New: "MD_Get MD_New k = []"
  by (simp add: MD_Get_def MD_New_def)

lemma MD_Get_same_key: "ToLower k = ToLower k' \<Longrightarrow> MD_Get md k = MD_Get md k'"
  by (simp add: MD_Get_def)

lemma MD_Get_Set:
  "MD_Get (MD_Set md k vals) k' =
     (if vals \<noteq> [] \<and> ToLower k' = ToLower k then vals else MD_Get md k')"
  by (simp add: MD_Get_def MD_Set_def update_conv')

lemma Header_Get_Nil: "Header_Get [] k = []"
  by (simp add: Header_Get_def)

lemma Header_Get_Set:
  "Header_Get (Header_Set h k v) k' =
     (if CanonicalMIMEHeaderKey k' = CanonicalMIMEHeaderKey k then v else Header_Get h k')"
  by (simp add: Header_Get_def Header_Set_def update_conv')

lemma skipPaths_New: "skipPaths (NewHeaderMapper (Some cfg)) p = (p \<in> set (SkipPaths cfg))"
proof -
  have "foldl (\<lambda>sp path. sp(path := True)) sp0 ps p = (p \<in> set ps \<or> sp0 p)"
    for sp0 :: "string \<Rightarrow> bool" and ps
    by (induction ps arbitrary: sp0) auto
  then show ?thesis
    by (simp add: NewHeaderMapper_def)
qed

lemma config_New: "config (NewHeaderMapper (Some cfg)) = Some cfg"
  by (simp add: NewHeaderMapper_def)

section \<open>The transformation chain\<close>

lemma ChainTransforms_Nil: "ChainTransforms [] v = v"
  by (simp add: ChainTransforms_def)

lemma ChainTransforms_Cons:
  "ChainTransforms (t # ts) v = ChainTransforms ts (case t of None \<Rightarrow> v | Some f \<Rightarrow> f v)"
  by (simp add: ChainTransforms_def)

lemma ChainTransforms_append:
  "ChainTransforms (ts @ us) v = ChainTransforms us (ChainTransforms ts v)"
  by (simp add: ChainTransforms_def)

lemma ChainTransforms_skip_nil:
  "ChainTransforms (filter (\<lambda>t. t \<noteq> None) ts) v = ChainTransforms ts v"
proof (induction ts arbitrary: v)
  case Nil
  show ?case by simp
next
  case (Cons t ts)
  show ?case
  proof (cases t)
    case None
    then show ?thesis
      using Cons.IH[of v] by (simp add: ChainTransforms_Cons)
  next
    case (Some f)
    then show ?thesis
      using Cons.IH[of "f v"] by (simp add: ChainTransforms_Cons)
  qed
qed

lemma chain_bearer_example:
  "ChainTransforms [Some TrimSpace, Some (RemovePrefix ''Bearer '')] ''  Bearer abc123  ''
     = ''abc123''"
  by code_simp

text \<open>
  Claim C8. \<open>ChainTransforms\<close> applies its functions strictly from left to right: the
  empty chain is the identity, a nil function at the head is skipped, a function at the
  head is applied before the rest of the chain, a chain split in two runs its first
  part first, and removing every nil function changes nothing. The result is a total
  function (there is no error). Trimming and then removing the prefix \<open>Bearer \<close> maps
  \<open>  Bearer abc123  \<close> to \<open>abc123\<close>.
\<close>

theorem ChainTransforms_left_to_right:
  "ChainTransforms [] v = v
   \<and> ChainTransforms (None # ts) v = ChainTransforms ts v
   \<and> ChainTransforms (Some f # ts) v = ChainTransforms ts (f v)
   \<and> ChainTransforms [Some f, Some g] v = g (f v)
   \<and> ChainTransforms (ts @ us) v = ChainTransforms us (ChainTransforms ts v)
   \<and> ChainTransforms ts v = ChainTransforms (filter (\<lambda>t. t \<noteq> None) ts) v
   \<and> ChainTransforms [Some TrimSpace, Some (RemovePrefix ''Bearer '')] ''  Bearer abc123  ''
       = ''abc123''"
  using ChainTransforms_skip_nil[of ts v] chain_bearer_example
  by (simp add: ChainTransforms_Nil ChainTransforms_Cons ChainTransforms_append)

theorem ChainTransforms_left_to_right_witness:
  "ChainTransforms [Some ToUpper, None, Some (AddPrefix ''id-'')] ''ab'' = ''id-AB''
   \<and> ChainTransforms ([None] @ [Some ToUpper]) ''ab''
       = ChainTransforms [Some ToUpper] (ChainTransforms [None] ''ab'')"
proof -
  have "ChainTransforms [Some ToUpper, None, Some (AddPrefix ''id-'')] ''ab'' = ''id-AB''"
    by code_simp
  with ChainTransforms_left_to_right
    [of "''ab''" "[None]" ToUpper "AddPrefix ''id-''" "[Some ToUpper]"]
  show ?thesis
    by simp
qed

section \<open>Inbound mapping\<close>

lemma mapIncomingHeader_present:
  assumes "Header_Get (Header req) (HTTPHeader m) = V" and "V \<noteq> []"
  shows "mapIncomingHeader cfg req m (md, log) =
     (if \<not> OverwriteExisting cfg \<and> MD_Get md (GRPCMetadata m) \<noteq> [] then md
      else MD_Set md (GRPCMetadata m) [applyTransform m V], log)"
  using assms by (simp add: mapIncomingHeader_def Let_def)

lemma mapIncomingHeader_default:
  assumes "Header_Get (Header req) (HTTPHeader m) = []" and "DefaultValue m \<noteq> []"
  shows "mapIncomingHeader cfg req m (md, log) =
     (if \<not> OverwriteExisting cfg \<and> MD_Get md (GRPCMetadata m) \<noteq> [] then md
      else MD_Set md (GRPCMetadata m) [applyTransform m (DefaultValue m)], log)"
  using assms by (simp add: mapIncomingHeader_def Let_def)

lemma mapIncomingHeader_missing:
  assumes "Header_Get (Header req) (HTTPHeader m) = []" and "DefaultValue m = []"
  shows "mapIncomingHeader cfg req m (md, log) =
     (md, if Required m then log @ [Warn_log ''Required header missing:'' (HTTPHeader m)]
          else log)"
  using assms by (simp add: mapIncomingHeader_def Let_def)

lemma mapIncomingHeader_fst:
  "fst s = fst s' \<Longrightarrow> fst (mapIncomingHeader cfg req m s) = fst (mapIncomingHeader cfg req m s')"
  by (cases s; cases s') (simp add: mapIncomingHeader_def Let_def)

lemma mapIncomingHeader_frame:
  "ToLower (GRPCMetadata m) \<noteq> ToLower k \<Longrightarrow>
     MD_Get (fst (mapIncomingHeader cfg req m s)) k = MD_Get (fst s) k"
  by (cases s) (auto simp: mapIncomingHeader_def Let_def MD_Get_Set)

lemma mapIncomingHeader_populated:
  assumes "\<not> OverwriteExisting cfg" and "MD_Get (fst s) k \<noteq> []"
  shows "MD_Get (fst (mapIncomingHeader cfg req m s)) k = MD_Get (fst s) k"
proof (cases "ToLower (GRPCMetadata m) = ToLower k")
  case True
  then have "MD_Get (fst s) (GRPCMetadata m) = MD_Get (fst s) k"
    by (rule MD_Get_same_key)
  with assms show ?thesis
    by (cases s) (simp add: mapIncomingHeader_def Let_def)
next
  case False
  then show ?thesis
    by (rule mapIncomingHeader_frame)
qed

lemma mapIncomingHeader_same_policy:
  "OverwriteExisting c = OverwriteExisting c' \<Longrightarrow>
     mapIncomingHeader c req m s = mapIncomingHeader c' req m s"
  by (cases s) (simp add: mapIncomingHeader_def Let_def)

lemma incoming_loop_same_policy:
  assumes "OverwriteExisting c = OverwriteExisting c'"
  shows "incoming_loop c req ms s = incoming_loop c' req ms s"
  by (induction ms arbitrary: s) (simp_all add: mapIncomingHeader_same_policy[OF assms])

lemma incoming_loop_append:
  "incoming_loop cfg req (xs @ ys) s = incoming_loop cfg req ys (incoming_loop cfg req xs s)"
  by (induction xs arbitrary: s) simp_all

lemma incoming_loop_fst:
  "fst s = fst s' \<Longrightarrow> fst (incoming_loop cfg req ms s) = fst (incoming_loop cfg req ms s')"
proof (induction ms arbitrary: s s')
  case Nil
  then show ?case by simp
next
  case (Cons m ms)
  show ?case
  proof (cases "Direction m = Outgoing")
    case True
    then show ?thesis
      using Cons.IH[OF Cons.prems] by simp
  next
    case False
    then show ?thesis
      using Cons.IH[OF mapIncomingHeader_fst[OF Cons.prems]] by simp
  qed
qed

lemma incoming_loop_frame:
  "\<forall>m\<in>set ms. ToLower (GRPCMetadata m) \<noteq> ToLower k \<Longrightarrow>
     MD_Get (fst (incoming_loop cfg req ms s)) k = MD_Get (fst s) k"
  by (induction ms arbitrary: s) (simp_all add: mapIncomingHeader_frame)

lemma incoming_loop_populated:
  assumes "\<not> OverwriteExisting cfg"
  shows "MD_Get (fst s) k \<noteq> [] \<Longrightarrow>
     MD_Get (fst (incoming_loop cfg req ms s)) k = MD_Get (fst s) k"
proof (induction ms arbitrary: s)
  case Nil
  show ?case by simp
next
  case (Cons m ms)
  show ?case
  proof (cases "Direction m = Outgoing")
    case True
    then show ?thesis
      using Cons.IH[OF Cons.prems] by simp
  next
    case False
    have st: "MD_Get (fst (mapIncomingHeader cfg req m s)) k = MD_Get (fst s) k"
      using assms Cons.prems by (rule mapIncomingHeader_populated)
    with Cons.prems have "MD_Get (fst (mapIncomingHeader cfg req m s)) k \<noteq> []"
      by simp
    from Cons.IH[OF this] st False show ?thesis
      by simp
  qed
qed

lemma MetadataAnnotator_run:
  assumes "URL_Path req \<notin> set (SkipPaths cfg)"
  shows "\<exists>log. MetadataAnnotator (NewHeaderMapper (Some cfg)) req =
           Inr (fst (incoming_loop cfg req (Mappings cfg) (MD_New, [])), log)"
  using assms
  by (simp add: MetadataAnnotator_def skipPaths_New config_New split: prod.splits)

lemma MetadataAnnotator_result:
  assumes "URL_Path req \<notin> set (SkipPaths cfg)"
  shows "MetadataAnnotator (NewHeaderMapper (Some cfg)) req =
     Inr (fst (incoming_loop cfg req (Mappings cfg) (MD_New, [])),
          snd (incoming_loop cfg req (Mappings cfg) (MD_New, [])) @
          (if Debug cfg
           then [Debug_log ''Mapped incoming headers:''
                   (Some (fst (incoming_loop cfg req (Mappings cfg) (MD_New, []))))]
           else []))"
  using assms
  by (simp add: MetadataAnnotator_def skipPaths_New config_New split: prod.splits)

text \<open>The logger's trace only grows: a rule and a pass append to the trace they are given.\<close>

lemma mapIncomingHeader_log:
  "mapIncomingHeader cfg req m (md, log) =
     (fst (mapIncomingHeader cfg req m (md, [])),
      log @ snd (mapIncomingHeader cfg req m (md, [])))"
  by (simp add: mapIncomingHeader_def Let_def)

lemma incoming_loop_log:
  "incoming_loop cfg req ms (md, log) =
     (fst (incoming_loop cfg req ms (md, [])), log @ snd (incoming_loop cfg req ms (md, [])))"
proof (induction ms arbitrary: md log)
  case Nil
  show ?case by simp
next
  case (Cons m ms)
  show ?case
  proof (cases "Direction m = Outgoing")
    case True
    then show ?thesis
      using Cons.IH[of md log] by simp
  next
    case False
    obtain md1 l1 where st: "mapIncomingHeader cfg req m (md, []) = (md1, l1)"
      by (cases "mapIncomingHeader cfg req m (md, [])")
    have st': "mapIncomingHeader cfg req m (md, log) = (md1, log @ l1)"
      using mapIncomingHeader_log[of cfg req m md log] st by simp
    have a: "incoming_loop cfg req ms (md1, log @ l1) =
        (fst (incoming_loop cfg req ms (md1, [])),
         (log @ l1) @ snd (incoming_loop cfg req ms (md1, [])))"
      by (rule Cons.IH)
    have b: "incoming_loop cfg req ms (md1, l1) =
        (fst (incoming_loop cfg req ms (md1, [])), l1 @ snd (incoming_loop cfg req ms (md1, [])))"
      by (rule Cons.IH)
    show ?thesis
      using False by (simp add: st st' a b)
  qed
qed

text \<open>With a default value, the \<open>Required\<close> flag of a rule is not consulted.\<close>

lemma mapIncomingHeader_Required_default:
  "DefaultValue m \<noteq> [] \<Longrightarrow>
     mapIncomingHeader cfg req (m\<lparr>Required := rq\<rparr>) s = mapIncomingHeader cfg req m s"
  by (cases s) (simp add: mapIncomingHeader_def Let_def applyTransform_def)

text \<open>Every \<open>Warn\<close> of the inbound pass comes from a required rule with no default.\<close>

lemma mapIncomingHeader_warns:
  "Warn_log t h \<in> set (snd (mapIncomingHeader cfg req m s)) \<Longrightarrow>
     Warn_log t h \<in> set (snd s) \<or> (Required m \<and> DefaultValue m = [] \<and> HTTPHeader m = h)"
  by (cases s) (auto simp: mapIncomingHeader_def Let_def split: if_splits)

lemma incoming_loop_warns:
  "Warn_log t h \<in> set (snd (incoming_loop cfg req ms s)) \<Longrightarrow>
     Warn_log t h \<in> set (snd s)
     \<or> (\<exists>m\<in>set ms. Required m \<and> DefaultValue m = [] \<and> HTTPHeader m = h)"
proof (induction ms arbitrary: s)
  case Nil
  then show ?case by simp
next
  case (Cons m ms)
  show ?case
  proof (cases "Direction m = Outgoing")
    case True
    with Cons.prems have "Warn_log t h \<in> set (snd (incoming_loop cfg req ms s))"
      by simp
    from Cons.IH[OF this] show ?thesis
      by auto
  next
    case False
    with Cons.prems
    have "Warn_log t h \<in> set (snd (incoming_loop cfg req ms (mapIncomingHeader cfg req m s)))"
      by simp
    from Cons.IH[OF this] mapIncomingHeader_warns[of t h cfg req m s] show ?thesis
      by auto
  qed
qed

text \<open>
  Claim C3. For a request whose path is in the skip set, \<open>MetadataAnnotator\<close> returns
  the empty metadata, whatever the headers and the rules are: no rule is evaluated (the
  logger is not called either), and every key of the result reads as absent.
\<close>

theorem skip_path_returns_empty_metadata:
  assumes "URL_Path req \<in> set (SkipPaths cfg)"
  shows "MetadataAnnotator (NewHeaderMapper (Some cfg)) req = Inr (MD_New, [])
         \<and> MD_Get MD_New k = []"
  using assms by (simp add: MetadataAnnotator_def skipPaths_New MD_Get_New)

theorem skip_path_returns_empty_metadata_witness:
  "URL_Path request_health \<in> set (SkipPaths ((config_of [rule_user])\<lparr>SkipPaths := [''/health'']\<rparr>))
   \<and> MetadataAnnotator
       (NewHeaderMapper (Some ((config_of [rule_user])\<lparr>SkipPaths := [''/health'']\<rparr>)))
       request_health = Inr (MD_New, [])"
proof -
  have h: "URL_Path request_health
      \<in> set (SkipPaths ((config_of [rule_user])\<lparr>SkipPaths := [''/health'']\<rparr>))"
    by code_simp
  from skip_path_returns_empty_metadata[OF h] h show ?thesis
    by simp
qed

text \<open>
  Claim C2, as the code has it. Let the metadata keys of the rules be ASCII, a rule's
  direction be other than \<open>Outgoing\<close> (so \<open>Incoming\<close> or \<open>Bidirectional\<close>), the
  request's path not be skipped, and the request
  carry the non-empty value \<open>V\<close> under the rule's HTTP header. An empty value is read as
  no value: the rule sees of the request only what \<open>Header.Get\<close> returns for its header.
  Then the rule writes \<open>applyTransform m V\<close> (the transform of \<open>V\<close>, or \<open>V\<close> when the rule has
  none) under its metadata key when \<open>OverwriteExisting\<close> is set or the key is not
  populated yet, and is rejected, leaving the metadata as it is, when the key is populated
  and \<open>OverwriteExisting\<close> is not set. For the whole pass of \<open>MetadataAnnotator\<close>: without
  \<open>OverwriteExisting\<close> the key ends with the value of the first writer (this rule's value
  when no earlier rule populated the key, the earlier value otherwise); with
  \<open>OverwriteExisting\<close> this rule replaces what earlier rules wrote, and its value is the
  final one when no later rule has the same key.
\<close>

theorem inbound_write_first_writer_wins:
  assumes dir: "Direction m \<noteq> Outgoing"
    and path: "URL_Path req \<notin> set (SkipPaths cfg)"
    and val: "Header_Get (Header req) (HTTPHeader m) = V"
    and ne: "V \<noteq> []"
    and rules: "Mappings cfg = before @ m # after"
    and ascii: "\<forall>m'\<in>set (Mappings cfg). isASCII (GRPCMetadata m')"
  shows
    "(OverwriteExisting cfg \<or> MD_Get md (GRPCMetadata m) = [] \<longrightarrow>
        mapIncomingHeader cfg req m (md, log) =
          (MD_Set md (GRPCMetadata m) [applyTransform m V], log)
        \<and> MD_Get (fst (mapIncomingHeader cfg req m (md, log))) (GRPCMetadata m) =
            [applyTransform m V])
     \<and> (\<not> OverwriteExisting cfg \<and> MD_Get md (GRPCMetadata m) \<noteq> [] \<longrightarrow>
          mapIncomingHeader cfg req m (md, log) = (md, log))
     \<and> (\<not> OverwriteExisting cfg \<longrightarrow>
          (\<exists>md' log'. MetadataAnnotator (NewHeaderMapper (Some cfg)) req = Inr (md', log') \<and>
             MD_Get md' (GRPCMetadata m) =
               (if MD_Get (fst (incoming_loop cfg req before (MD_New, []))) (GRPCMetadata m) = []
                then [applyTransform m V]
                else MD_Get (fst (incoming_loop cfg req before (MD_New, []))) (GRPCMetadata m))))
     \<and> (OverwriteExisting cfg \<and>
          (\<forall>m'\<in>set after. ToLower (GRPCMetadata m') \<noteq> ToLower (GRPCMetadata m)) \<longrightarrow>
          (\<exists>md' log'. MetadataAnnotator (NewHeaderMapper (Some cfg)) req = Inr (md', log') \<and>
             MD_Get md' (GRPCMetadata m) = [applyTransform m V]))
     \<and> (Header_Get (Header r) (HTTPHeader m) = Header_Get (Header r') (HTTPHeader m) \<longrightarrow>
          mapIncomingHeader cfg r m (md, log) = mapIncomingHeader cfg r' m (md, log))"
proof -
  let ?k = "GRPCMetadata m"
  let ?t = "applyTransform m V"
  have E: "Header_Get (Header r) (HTTPHeader m) = Header_Get (Header r') (HTTPHeader m) \<longrightarrow>
      mapIncomingHeader cfg r m (md, log) = mapIncomingHeader cfg r' m (md, log)"
    by (simp add: mapIncomingHeader_def)
  let ?s1 = "incoming_loop cfg req before (MD_New, [])"
  let ?s2 = "mapIncomingHeader cfg req m ?s1"
  note step = mapIncomingHeader_present[OF val ne]
  have A: "OverwriteExisting cfg \<or> MD_Get md ?k = [] \<longrightarrow>
        mapIncomingHeader cfg req m (md, log) = (MD_Set md ?k [?t], log)
        \<and> MD_Get (fst (mapIncomingHeader cfg req m (md, log))) ?k = [?t]"
    by (auto simp: step MD_Get_Set)
  have B: "\<not> OverwriteExisting cfg \<and> MD_Get md ?k \<noteq> [] \<longrightarrow>
        mapIncomingHeader cfg req m (md, log) = (md, log)"
    by (simp add: step)
  obtain log' where run: "MetadataAnnotator (NewHeaderMapper (Some cfg)) req =
      Inr (fst (incoming_loop cfg req (Mappings cfg) (MD_New, [])), log')"
    using MetadataAnnotator_run[OF path] by blast
  have full: "incoming_loop cfg req (Mappings cfg) (MD_New, []) = incoming_loop cfg req after ?s2"
    using dir by (simp add: rules incoming_loop_append)
  have s2_first: "MD_Get (fst ?s2) ?k =
      (if MD_Get (fst ?s1) ?k = [] then [?t] else MD_Get (fst ?s1) ?k)"
    if "\<not> OverwriteExisting cfg"
    using that by (cases ?s1) (auto simp: step MD_Get_Set)
  have C: "MD_Get (fst (incoming_loop cfg req (Mappings cfg) (MD_New, []))) ?k =
      (if MD_Get (fst ?s1) ?k = [] then [?t] else MD_Get (fst ?s1) ?k)"
    if no: "\<not> OverwriteExisting cfg"
  proof -
    have "MD_Get (fst ?s2) ?k \<noteq> []"
      using s2_first[OF no] by auto
    from incoming_loop_populated[OF no this] s2_first[OF no] show ?thesis
      by (simp add: full)
  qed
  have D: "MD_Get (fst (incoming_loop cfg req (Mappings cfg) (MD_New, []))) ?k = [?t]"
    if ow: "OverwriteExisting cfg"
      and fr: "\<forall>m'\<in>set after. ToLower (GRPCMetadata m') \<noteq> ToLower ?k"
  proof -
    have "MD_Get (fst ?s2) ?k = [?t]"
      using ow by (cases ?s1) (auto simp: step MD_Get_Set)
    with incoming_loop_frame[OF fr] show ?thesis
      by (simp add: full)
  qed
  have C': "\<not> OverwriteExisting cfg \<longrightarrow>
      (\<exists>md' log'. MetadataAnnotator (NewHeaderMapper (Some cfg)) req = Inr (md', log') \<and>
         MD_Get md' ?k = (if MD_Get (fst ?s1) ?k = [] then [?t] else MD_Get (fst ?s1) ?k))"
  proof
    assume no: "\<not> OverwriteExisting cfg"
    from run C[OF no] show "\<exists>md' log'.
        MetadataAnnotator (NewHeaderMapper (Some cfg)) req = Inr (md', log') \<and>
        MD_Get md' ?k = (if MD_Get (fst ?s1) ?k = [] then [?t] else MD_Get (fst ?s1) ?k)"
      by (intro exI conjI)
  qed
  have D': "OverwriteExisting cfg \<and>
      (\<forall>m'\<in>set after. ToLower (GRPCMetadata m') \<noteq> ToLower ?k) \<longrightarrow>
      (\<exists>md' log'. MetadataAnnotator (NewHeaderMapper (Some cfg)) req = Inr (md', log') \<and>
         MD_Get md' ?k = [?t])"
  proof
    assume "OverwriteExisting cfg \<and>
      (\<forall>m'\<in>set after. ToLower (GRPCMetadata m') \<noteq> ToLower ?k)"
    then have ow: "OverwriteExisting cfg"
      and fr: "\<forall>m'\<in>set after. ToLower (GRPCMetadata m') \<noteq> ToLower ?k"
      by simp_all
    from run D[OF ow fr] show "\<exists>md' log'.
        MetadataAnnotator (NewHeaderMapper (Some cfg)) req = Inr (md', log') \<and>
        MD_Get md' ?k = [?t]"
      by (intro exI conjI)
  qed
  from A B C' D' E show ?thesis
    by (intro conjI)
qed

theorem inbound_write_first_writer_wins_witness:
  "Header_Get (Header request_auth) (HTTPHeader rule_auth) = ''Bearer abc123''
   \<and> mapIncomingHeader (config_of [rule_auth]) request_auth rule_auth (MD_New, [])
       = ([(''auth-token'', [''abc123''])], [])
   \<and> mapIncomingHeader (config_of [rule_auth]) request_auth rule_auth
         ([(''auth-token'', [''first''])], [])
       = ([(''auth-token'', [''first''])], [])
   \<and> (\<exists>md' log'.
         MetadataAnnotator (NewHeaderMapper (Some (config_of [rule_auth]))) request_auth
           = Inr (md', log')
         \<and> MD_Get md' (GRPCMetadata rule_auth) = [''abc123''])"
proof -
  have h1: "Direction rule_auth \<noteq> Outgoing"
    by code_simp
  have h2: "URL_Path request_auth \<notin> set (SkipPaths (config_of [rule_auth]))"
    by code_simp
  have h3: "Header_Get (Header request_auth) (HTTPHeader rule_auth) = ''Bearer abc123''"
    by code_simp
  have h4: "''Bearer abc123'' \<noteq> []"
    by simp
  have h5: "Mappings (config_of [rule_auth]) = [] @ rule_auth # []"
    by (simp add: config_of_def)
  have h6: "\<forall>m'\<in>set (Mappings (config_of [rule_auth])). isASCII (GRPCMetadata m')"
    by code_simp
  note thm1 = inbound_write_first_writer_wins
    [OF h1 h2 h3 h4 h5 h6, where md = MD_New and log = "[]" and r = request_plain
       and r' = request_auth_empty]
  note thm2 = inbound_write_first_writer_wins
    [OF h1 h2 h3 h4 h5 h6, where md = "[(''auth-token'', [''first''])]" and log = "[]"
       and r = request_plain and r' = request_auth_empty]
  have a1: "MD_Get MD_New (GRPCMetadata rule_auth) = []"
    by (rule MD_Get_New)
  have a2: "\<not> OverwriteExisting (config_of [rule_auth])"
    by code_simp
  have a3: "MD_Get [(''auth-token'', [''first''])] (GRPCMetadata rule_auth) \<noteq> []"
    by code_simp
  have a4: "MD_Get (fst (incoming_loop (config_of [rule_auth]) request_auth [] (MD_New, [])))
      (GRPCMetadata rule_auth) = []"
    by (simp add: MD_Get_New)
  have e1: "(MD_Set MD_New (GRPCMetadata rule_auth) [applyTransform rule_auth ''Bearer abc123''],
      [] :: log_call list) = ([(''auth-token'', [''abc123''])], [])"
    by code_simp
  have e2: "[applyTransform rule_auth ''Bearer abc123''] = [''abc123'']"
    by code_simp
  have w1: "mapIncomingHeader (config_of [rule_auth]) request_auth rule_auth (MD_New, [])
       = ([(''auth-token'', [''abc123''])], [])"
    using thm1 a1 e1 by simp
  have w2: "mapIncomingHeader (config_of [rule_auth]) request_auth rule_auth
         ([(''auth-token'', [''first''])], [])
       = ([(''auth-token'', [''first''])], [])"
    using thm2 a2 a3 by simp
  have w3: "\<exists>md' log'.
         MetadataAnnotator (NewHeaderMapper (Some (config_of [rule_auth]))) request_auth
           = Inr (md', log')
         \<and> MD_Get md' (GRPCMetadata rule_auth) = [''abc123'']"
    using thm1 a2 a4 e2 by simp
  from h3 w1 w2 w3 show ?thesis
    by (intro conjI)
qed

theorem empty_header_value_counterexample:
  "map_of (Header request_auth_empty) (HTTPHeader rule_auth) = Some ['''']
   \<and> MetadataAnnotator (NewHeaderMapper (Some (config_of [rule_auth]))) request_auth_empty
       = Inr (MD_New, [])
   \<and> MD_Get MD_New (GRPCMetadata rule_auth) \<noteq> [applyTransform rule_auth '''']
   \<and> Header_Get (Header request_health) (HTTPHeader rule_user) = ''12345''
   \<and> MetadataAnnotator
         (NewHeaderMapper (Some ((config_of [rule_user])\<lparr>SkipPaths := [''/health'']\<rparr>)))
         request_health = Inr (MD_New, [])
   \<and> MD_Get MD_New (GRPCMetadata rule_user) \<noteq> [applyTransform rule_user ''12345'']"
  by code_simp

text \<open>
  Claim C1, as the code has it. Let the metadata keys of the rules be ASCII, the request's
  path not be skipped, and a required rule whose direction is other than \<open>Outgoing\<close> have
  no value for its header in the request and no default. The rule leaves the metadata as
  it is and calls the logger's \<open>Warn\<close> once. The pass goes on with the other rules: it
  returns the metadata that the same pass returns without the rule, and its trace is the
  trace of the pass without the rule, with this one \<open>Warn\<close> inserted after the trace of
  the rules before it. The rule's key is absent from the metadata returned when no other
  rule has that key. No counter is kept: \<open>GetStats\<close> returns zero counters on every call.
\<close>

theorem required_header_missing_is_skipped:
  assumes rq: "Required m"
    and dir: "Direction m \<noteq> Outgoing"
    and absent: "Header_Get (Header req) (HTTPHeader m) = []"
    and nodef: "DefaultValue m = []"
    and path: "URL_Path req \<notin> set (SkipPaths cfg)"
    and ascii: "\<forall>m'\<in>set (before @ m # after). isASCII (GRPCMetadata m')"
  shows
    "mapIncomingHeader cfg req m (md, log) =
       (md, log @ [Warn_log ''Required header missing:'' (HTTPHeader m)])
     \<and> (\<exists>md' lb la dbg.
          MetadataAnnotator (NewHeaderMapper (Some (cfg\<lparr>Mappings := before @ m # after\<rparr>))) req
            = Inr (md', lb @ Warn_log ''Required header missing:'' (HTTPHeader m) # la @ dbg)
          \<and> MetadataAnnotator (NewHeaderMapper (Some (cfg\<lparr>Mappings := before @ after\<rparr>))) req
            = Inr (md', lb @ la @ dbg)
          \<and> lb = snd (incoming_loop cfg req before (MD_New, []))
          \<and> ((\<forall>m'\<in>set (before @ after). ToLower (GRPCMetadata m') \<noteq> ToLower (GRPCMetadata m))
               \<longrightarrow> MD_Get md' (GRPCMetadata m) = []))
     \<and> FailedMappings (GetStats hm now) = 0
     \<and> FailedMappings (GetStats hm later) = FailedMappings (GetStats hm now)"
proof -
  let ?W = "Warn_log ''Required header missing:'' (HTTPHeader m)"
  let ?k = "GRPCMetadata m"
  let ?c1 = "cfg\<lparr>Mappings := before @ m # after\<rparr>"
  let ?c2 = "cfg\<lparr>Mappings := before @ after\<rparr>"
  let ?sb = "incoming_loop cfg req before (MD_New, [])"
  let ?sa = "incoming_loop cfg req after (fst ?sb, [])"
  let ?dbg = "if Debug cfg then [Debug_log ''Mapped incoming headers:'' (Some (fst ?sa))] else []"
  have step: "mapIncomingHeader cfg req m (md0, log0) = (md0, log0 @ [?W])" for md0 log0
    using rq by (simp add: mapIncomingHeader_missing[OF absent nodef])
  have p1: "URL_Path req \<notin> set (SkipPaths ?c1)" and p2: "URL_Path req \<notin> set (SkipPaths ?c2)"
    using path by simp_all
  have e1: "incoming_loop ?c1 req ms s = incoming_loop cfg req ms s" for ms s
    by (rule incoming_loop_same_policy) simp
  have e2: "incoming_loop ?c2 req ms s = incoming_loop cfg req ms s" for ms s
    by (rule incoming_loop_same_policy) simp
  have l1: "incoming_loop cfg req (before @ m # after) (MD_New, []) =
      (fst ?sa, (snd ?sb @ [?W]) @ snd ?sa)"
  proof -
    have a: "incoming_loop cfg req (before @ m # after) (MD_New, []) =
        incoming_loop cfg req after (mapIncomingHeader cfg req m ?sb)"
      using dir by (simp add: incoming_loop_append)
    have b: "mapIncomingHeader cfg req m ?sb = (fst ?sb, snd ?sb @ [?W])"
      using step[of "fst ?sb" "snd ?sb"] by simp
    have c: "incoming_loop cfg req after (fst ?sb, snd ?sb @ [?W]) =
        (fst ?sa, (snd ?sb @ [?W]) @ snd ?sa)"
      by (rule incoming_loop_log)
    show ?thesis
      by (simp only: a b c)
  qed
  have l2: "incoming_loop cfg req (before @ after) (MD_New, []) = (fst ?sa, snd ?sb @ snd ?sa)"
  proof -
    have a: "incoming_loop cfg req (before @ after) (MD_New, []) =
        incoming_loop cfg req after ?sb"
      by (simp add: incoming_loop_append)
    have c: "incoming_loop cfg req after ?sb = (fst ?sa, snd ?sb @ snd ?sa)"
      using incoming_loop_log[of cfg req after "fst ?sb" "snd ?sb"] by simp
    show ?thesis
      by (simp only: a c)
  qed
  have r1: "MetadataAnnotator (NewHeaderMapper (Some ?c1)) req =
      Inr (fst ?sa, snd ?sb @ ?W # snd ?sa @ ?dbg)"
    using MetadataAnnotator_result[OF p1] by (simp add: e1 l1)
  have r2: "MetadataAnnotator (NewHeaderMapper (Some ?c2)) req =
      Inr (fst ?sa, snd ?sb @ snd ?sa @ ?dbg)"
    using MetadataAnnotator_result[OF p2] by (simp add: e2 l2)
  have key: "MD_Get (fst ?sa) ?k = []"
    if fr: "\<forall>m'\<in>set (before @ after). ToLower (GRPCMetadata m') \<noteq> ToLower ?k"
  proof -
    from fr have fb: "\<forall>m'\<in>set before. ToLower (GRPCMetadata m') \<noteq> ToLower ?k"
      and fa: "\<forall>m'\<in>set after. ToLower (GRPCMetadata m') \<noteq> ToLower ?k"
      by simp_all
    have "MD_Get (fst ?sa) ?k = MD_Get (fst (fst ?sb, [] :: log_call list)) ?k"
      using fa by (rule incoming_loop_frame)
    also have "\<dots> = MD_Get (fst ?sb) ?k"
      by simp
    also have "\<dots> = MD_Get (fst (MD_New, [] :: log_call list)) ?k"
      using fb by (rule incoming_loop_frame)
    finally show ?thesis
      by (simp add: MD_Get_New)
  qed
  have k': "(\<forall>m'\<in>set (before @ after). ToLower (GRPCMetadata m') \<noteq> ToLower ?k)
      \<longrightarrow> MD_Get (fst ?sa) ?k = []"
    using key by (intro impI)
  have lb: "snd ?sb = snd (incoming_loop cfg req before (MD_New, []))"
    by (rule refl)
  from r1 r2 lb k' have ex: "\<exists>md' lb la dbg.
          MetadataAnnotator (NewHeaderMapper (Some ?c1)) req = Inr (md', lb @ ?W # la @ dbg)
          \<and> MetadataAnnotator (NewHeaderMapper (Some ?c2)) req = Inr (md', lb @ la @ dbg)
          \<and> lb = snd (incoming_loop cfg req before (MD_New, []))
          \<and> ((\<forall>m'\<in>set (before @ after). ToLower (GRPCMetadata m') \<noteq> ToLower ?k)
               \<longrightarrow> MD_Get md' ?k = [])"
    by (intro exI conjI)
  have s0: "FailedMappings (GetStats hm now) = 0"
    and s1: "FailedMappings (GetStats hm later) = FailedMappings (GetStats hm now)"
    by (simp_all add: GetStats_def)
  from step ex s0 s1 show ?thesis
    by (intro conjI)
qed

theorem required_header_missing_is_skipped_witness:
  "mapIncomingHeader (config_of []) request_user rule_required (MD_New, [])
     = (MD_New, [] @ [Warn_log ''Required header missing:'' (HTTPHeader rule_required)])
   \<and> MetadataAnnotator (NewHeaderMapper (Some (config_of [rule_required, rule_user]))) request_user
     = Inr ([(''user-id'', [''12345''])], [Warn_log ''Required header missing:'' ''X-Required''])
   \<and> MetadataAnnotator (NewHeaderMapper (Some (config_of [rule_user]))) request_user
     = Inr ([(''user-id'', [''12345''])], [])
   \<and> (\<exists>md' lb la dbg.
        MetadataAnnotator (NewHeaderMapper (Some (config_of [rule_required, rule_user]))) request_user
          = Inr (md', lb @ Warn_log ''Required header missing:'' (HTTPHeader rule_required) # la @ dbg)
        \<and> MetadataAnnotator (NewHeaderMapper (Some (config_of [rule_user]))) request_user
          = Inr (md', lb @ la @ dbg)
        \<and> MD_Get md' (GRPCMetadata rule_required) = [])
   \<and> FailedMappings (GetStats (NewHeaderMapper (Some (config_of [rule_required, rule_user]))) 7) = 0"
proof -
  have h1: "Required rule_required"
    by code_simp
  have h2: "Direction rule_required \<noteq> Outgoing"
    by code_simp
  have h3: "Header_Get (Header request_user) (HTTPHeader rule_required) = []"
    by code_simp
  have h4: "DefaultValue rule_required = []"
    by code_simp
  have h5: "URL_Path request_user \<notin> set (SkipPaths (config_of []))"
    by code_simp
  have h6: "\<forall>m'\<in>set ([] @ rule_required # [rule_user]). isASCII (GRPCMetadata m')"
    by code_simp
  note thm1 = required_header_missing_is_skipped
    [OF h1 h2 h3 h4 h5 h6, where md = MD_New and log = "[]"
       and hm = "NewHeaderMapper (Some (config_of [rule_required, rule_user]))" and now = 7
       and later = 8]
  have c1: "(config_of [])\<lparr>Mappings := [] @ rule_required # [rule_user]\<rparr>
      = config_of [rule_required, rule_user]"
    and c2: "(config_of [])\<lparr>Mappings := [] @ [rule_user]\<rparr> = config_of [rule_user]"
    by (simp_all add: config_of_def)
  have fr: "\<forall>m'\<in>set ([] @ [rule_user]).
      ToLower (GRPCMetadata m') \<noteq> ToLower (GRPCMetadata rule_required)"
    by code_simp
  have e1: "MetadataAnnotator (NewHeaderMapper (Some (config_of [rule_required, rule_user])))
      request_user
     = Inr ([(''user-id'', [''12345''])], [Warn_log ''Required header missing:'' ''X-Required''])"
    by code_simp
  have e2: "MetadataAnnotator (NewHeaderMapper (Some (config_of [rule_user]))) request_user
     = Inr ([(''user-id'', [''12345''])], [])"
    by code_simp
  have w1: "mapIncomingHeader (config_of []) request_user rule_required (MD_New, [])
     = (MD_New, [] @ [Warn_log ''Required header missing:'' (HTTPHeader rule_required)])"
    using thm1 by (rule conjunct1)
  from thm1[THEN conjunct2, THEN conjunct1] obtain md' lb la dbg where
    x1: "MetadataAnnotator
           (NewHeaderMapper (Some ((config_of [])\<lparr>Mappings := [] @ rule_required # [rule_user]\<rparr>)))
           request_user
         = Inr (md', lb @ Warn_log ''Required header missing:'' (HTTPHeader rule_required) # la @ dbg)"
    and x2: "MetadataAnnotator
           (NewHeaderMapper (Some ((config_of [])\<lparr>Mappings := [] @ [rule_user]\<rparr>))) request_user
         = Inr (md', lb @ la @ dbg)"
    and x3: "(\<forall>m'\<in>set ([] @ [rule_user]).
                ToLower (GRPCMetadata m') \<noteq> ToLower (GRPCMetadata rule_required))
             \<longrightarrow> MD_Get md' (GRPCMetadata rule_required) = []"
    by blast
  from x3 fr have x4: "MD_Get md' (GRPCMetadata rule_required) = []"
    by (rule mp)
  from x1 x2 x4 have w4: "\<exists>md' lb la dbg.
        MetadataAnnotator (NewHeaderMapper (Some (config_of [rule_required, rule_user]))) request_user
          = Inr (md', lb @ Warn_log ''Required header missing:'' (HTTPHeader rule_required) # la @ dbg)
        \<and> MetadataAnnotator (NewHeaderMapper (Some (config_of [rule_user]))) request_user
          = Inr (md', lb @ la @ dbg)
        \<and> MD_Get md' (GRPCMetadata rule_required) = []"
    unfolding c1 c2 by (intro exI conjI)
  have w5: "FailedMappings (GetStats (NewHeaderMapper (Some (config_of [rule_required, rule_user]))) 7)
      = 0"
    using thm1 by simp
  from w1 e1 e2 w4 w5 show ?thesis
    by (intro conjI)
qed

theorem failure_counter_counterexample:
  "MetadataAnnotator (NewHeaderMapper (Some (config_of [rule_required]))) request_plain
     = Inr ([], [Warn_log ''Required header missing:'' ''X-Required''])
   \<and> FailedMappings (GetStats (NewHeaderMapper (Some (config_of [rule_required]))) 2)
     \<noteq> FailedMappings (GetStats (NewHeaderMapper (Some (config_of [rule_required]))) 1) + 1"
proof -
  have "MetadataAnnotator (NewHeaderMapper (Some (config_of [rule_required]))) request_plain
     = Inr ([], [Warn_log ''Required header missing:'' ''X-Required''])"
    by code_simp
  then show ?thesis
    by (simp add: GetStats_def)
qed

lemma mapOutgoingHeader_default:
  assumes "MD_Get md (GRPCMetadata m) = []" and "DefaultValue m \<noteq> []"
  shows "mapOutgoingHeader cfg md m (w, log) =
     (if \<not> OverwriteExisting cfg \<and> Header_Get w (HTTPHeader m) \<noteq> [] then w
      else Header_Set w (HTTPHeader m) (applyTransform m (DefaultValue m)), log)"
  using assms by (simp add: mapOutgoingHeader_def Let_def)

section \<open>Outbound mapping\<close>

lemma outgoing_loop_append:
  "outgoing_loop cfg md (xs @ ys) s = outgoing_loop cfg md ys (outgoing_loop cfg md xs s)"
  by (induction xs arbitrary: s) simp_all

lemma mapOutgoingHeader_frame:
  "CanonicalMIMEHeaderKey (HTTPHeader m) \<noteq> CanonicalMIMEHeaderKey k \<Longrightarrow>
     Header_Get (fst (mapOutgoingHeader cfg md m s)) k = Header_Get (fst s) k"
  by (cases s) (auto simp: mapOutgoingHeader_def Let_def Header_Get_Set split: list.splits)

lemma outgoing_loop_frame:
  "\<forall>m\<in>set ms. CanonicalMIMEHeaderKey (HTTPHeader m) \<noteq> CanonicalMIMEHeaderKey k \<Longrightarrow>
     Header_Get (fst (outgoing_loop cfg md ms s)) k = Header_Get (fst s) k"
  by (induction ms arbitrary: s) (simp_all add: mapOutgoingHeader_frame)

lemma mapOutgoingHeader_same_policy:
  "OverwriteExisting c = OverwriteExisting c' \<Longrightarrow>
     mapOutgoingHeader c md m s = mapOutgoingHeader c' md m s"
  by (cases s) (simp add: mapOutgoingHeader_def Let_def split: list.splits)

lemma outgoing_loop_same_policy:
  assumes "OverwriteExisting c = OverwriteExisting c'"
  shows "outgoing_loop c md ms s = outgoing_loop c' md ms s"
  by (induction ms arbitrary: s) (simp_all add: mapOutgoingHeader_same_policy[OF assms])

lemma ResponseModifier_run:
  assumes "serverMetadata ctx = Some smd"
  shows "\<exists>log. ResponseModifier (NewHeaderMapper (Some cfg)) ctx w =
           Inr (fst (outgoing_loop cfg (HeaderMD smd) (Mappings cfg) (w, [])), log)"
  using assms by (simp add: ResponseModifier_def config_New split: prod.splits)

lemma ResponseModifier_result:
  assumes "serverMetadata ctx = Some sm"
  shows "ResponseModifier (NewHeaderMapper (Some cfg)) ctx w =
     Inr (fst (outgoing_loop cfg (HeaderMD sm) (Mappings cfg) (w, [])),
          snd (outgoing_loop cfg (HeaderMD sm) (Mappings cfg) (w, [])) @
          (if Debug cfg then [Debug_log ''Mapped outgoing headers to response'' None] else []))"
  using assms by (simp add: ResponseModifier_def config_New split: prod.splits)

lemma mapOutgoingHeader_Required_default:
  "DefaultValue m \<noteq> [] \<Longrightarrow>
     mapOutgoingHeader cfg md (m\<lparr>Required := rq\<rparr>) s = mapOutgoingHeader cfg md m s"
  by (cases s) (simp add: mapOutgoingHeader_def Let_def applyTransform_def split: list.splits)

text \<open>Every \<open>Warn\<close> of the outbound pass comes from a required rule with no default.\<close>

lemma mapOutgoingHeader_warns:
  "Warn_log t k \<in> set (snd (mapOutgoingHeader cfg md m s)) \<Longrightarrow>
     Warn_log t k \<in> set (snd s) \<or> (Required m \<and> DefaultValue m = [] \<and> GRPCMetadata m = k)"
  by (cases s) (auto simp: mapOutgoingHeader_def Let_def split: if_splits list.splits)

lemma outgoing_loop_warns:
  "Warn_log t k \<in> set (snd (outgoing_loop cfg md ms s)) \<Longrightarrow>
     Warn_log t k \<in> set (snd s)
     \<or> (\<exists>m\<in>set ms. Required m \<and> DefaultValue m = [] \<and> GRPCMetadata m = k)"
proof (induction ms arbitrary: s)
  case Nil
  then show ?case by simp
next
  case (Cons m ms)
  show ?case
  proof (cases "Direction m = Incoming")
    case True
    with Cons.prems have "Warn_log t k \<in> set (snd (outgoing_loop cfg md ms s))"
      by simp
    from Cons.IH[OF this] show ?thesis
      by auto
  next
    case False
    with Cons.prems
    have "Warn_log t k \<in> set (snd (outgoing_loop cfg md ms (mapOutgoingHeader cfg md m s)))"
      by simp
    from Cons.IH[OF this] mapOutgoingHeader_warns[of t k cfg md m s] show ?thesis
      by auto
  qed
qed

text \<open>
  Claim C6, as the code has it. The outbound pass has its own tests for an absent source
  and for a populated destination: the source is absent only when the metadata key has
  no value at all (a first value that is the empty string is transformed and written,
  where the inbound pass takes the default for an empty header value), and the
  destination counts as populated when the header reads as a non-empty value.
  For a rule whose direction is other than \<open>Incoming\<close> (so \<open>Outgoing\<close> or
  \<open>Bidirectional\<close>), \<open>mapOutgoingHeader\<close> reads the first value under the rule's metadata
  key and nothing of the values after it; with no value it takes the default when there
  is one, and otherwise writes nothing and calls the logger's \<open>Warn\<close> when the rule is
  required. The value read is transformed and written under the rule's HTTP header when
  \<open>OverwriteExisting\<close> is set or the header has no value yet, and the header then reads
  as the value written. In the whole pass of \<open>ResponseModifier\<close> over the response
  metadata, the header ends with the transformed first value when the write is accepted
  and no later rule has the same header.
\<close>

theorem outbound_write_first_value:
  assumes dir: "Direction m \<noteq> Incoming"
    and sm: "serverMetadata ctx = Some smd"
    and rules: "Mappings cfg = before @ m # after"
  shows
    "(MD_Get md (GRPCMetadata m) = v # vs \<longrightarrow>
        mapOutgoingHeader cfg md m (w, log) =
          (if OverwriteExisting cfg \<or> Header_Get w (HTTPHeader m) = []
           then Header_Set w (HTTPHeader m) (applyTransform m v) else w, log))
     \<and> (MD_Get md (GRPCMetadata m) = [] \<and> DefaultValue m \<noteq> [] \<longrightarrow>
          mapOutgoingHeader cfg md m (w, log) =
            (if OverwriteExisting cfg \<or> Header_Get w (HTTPHeader m) = []
             then Header_Set w (HTTPHeader m) (applyTransform m (DefaultValue m)) else w, log))
     \<and> (MD_Get md (GRPCMetadata m) = [] \<and> DefaultValue m = [] \<longrightarrow>
          mapOutgoingHeader cfg md m (w, log) =
            (w, if Required m
                then log @ [Warn_log ''Required metadata missing:'' (GRPCMetadata m)]
                else log))
     \<and> Header_Get (Header_Set w (HTTPHeader m) x) (HTTPHeader m) = x
     \<and> (MD_Get (HeaderMD smd) (GRPCMetadata m) = v # vs
          \<and> (OverwriteExisting cfg
               \<or> Header_Get (fst (outgoing_loop cfg (HeaderMD smd) before (w, []))) (HTTPHeader m) = [])
          \<and> (\<forall>m'\<in>set after. CanonicalMIMEHeaderKey (HTTPHeader m')
                                \<noteq> CanonicalMIMEHeaderKey (HTTPHeader m))
        \<longrightarrow> (\<exists>w' log'. ResponseModifier (NewHeaderMapper (Some cfg)) ctx w = Inr (w', log')
                \<and> Header_Get w' (HTTPHeader m) = applyTransform m v))"
proof -
  let ?M = "HeaderMD smd"
  let ?s1 = "outgoing_loop cfg ?M before (w, [])"
  let ?s2 = "mapOutgoingHeader cfg ?M m ?s1"
  have A: "MD_Get md (GRPCMetadata m) = v # vs \<longrightarrow>
        mapOutgoingHeader cfg md m (w, log) =
          (if OverwriteExisting cfg \<or> Header_Get w (HTTPHeader m) = []
           then Header_Set w (HTTPHeader m) (applyTransform m v) else w, log)"
    by (simp add: mapOutgoingHeader_def Let_def)
  have B: "MD_Get md (GRPCMetadata m) = [] \<and> DefaultValue m \<noteq> [] \<longrightarrow>
          mapOutgoingHeader cfg md m (w, log) =
            (if OverwriteExisting cfg \<or> Header_Get w (HTTPHeader m) = []
             then Header_Set w (HTTPHeader m) (applyTransform m (DefaultValue m)) else w, log)"
    by (simp add: mapOutgoingHeader_def Let_def)
  have C: "MD_Get md (GRPCMetadata m) = [] \<and> DefaultValue m = [] \<longrightarrow>
          mapOutgoingHeader cfg md m (w, log) =
            (w, if Required m
                then log @ [Warn_log ''Required metadata missing:'' (GRPCMetadata m)]
                else log)"
    by (simp add: mapOutgoingHeader_def Let_def)
  have D: "Header_Get (Header_Set w (HTTPHeader m) x) (HTTPHeader m) = x"
    by (simp add: Header_Get_Set)
  obtain log' where run: "ResponseModifier (NewHeaderMapper (Some cfg)) ctx w =
      Inr (fst (outgoing_loop cfg ?M (Mappings cfg) (w, [])), log')"
    using ResponseModifier_run[OF sm] by blast
  have full: "outgoing_loop cfg ?M (Mappings cfg) (w, []) = outgoing_loop cfg ?M after ?s2"
    using dir by (simp add: rules outgoing_loop_append)
  have E: "MD_Get ?M (GRPCMetadata m) = v # vs
          \<and> (OverwriteExisting cfg \<or> Header_Get (fst ?s1) (HTTPHeader m) = [])
          \<and> (\<forall>m'\<in>set after. CanonicalMIMEHeaderKey (HTTPHeader m')
                                \<noteq> CanonicalMIMEHeaderKey (HTTPHeader m))
        \<longrightarrow> (\<exists>w' log'. ResponseModifier (NewHeaderMapper (Some cfg)) ctx w = Inr (w', log')
                \<and> Header_Get w' (HTTPHeader m) = applyTransform m v)"
  proof
    assume asm: "MD_Get ?M (GRPCMetadata m) = v # vs
          \<and> (OverwriteExisting cfg \<or> Header_Get (fst ?s1) (HTTPHeader m) = [])
          \<and> (\<forall>m'\<in>set after. CanonicalMIMEHeaderKey (HTTPHeader m')
                                \<noteq> CanonicalMIMEHeaderKey (HTTPHeader m))"
    then have val: "MD_Get ?M (GRPCMetadata m) = v # vs"
      and acc: "OverwriteExisting cfg \<or> Header_Get (fst ?s1) (HTTPHeader m) = []"
      and fr: "\<forall>m'\<in>set after. CanonicalMIMEHeaderKey (HTTPHeader m')
                                \<noteq> CanonicalMIMEHeaderKey (HTTPHeader m)"
      by simp_all
    have "Header_Get (fst ?s2) (HTTPHeader m) = applyTransform m v"
      using val acc by (cases ?s1) (auto simp: mapOutgoingHeader_def Let_def Header_Get_Set)
    with outgoing_loop_frame[OF fr]
    have "Header_Get (fst (outgoing_loop cfg ?M (Mappings cfg) (w, []))) (HTTPHeader m)
        = applyTransform m v"
      by (simp add: full)
    with run show "\<exists>w' log'. ResponseModifier (NewHeaderMapper (Some cfg)) ctx w = Inr (w', log')
                \<and> Header_Get w' (HTTPHeader m) = applyTransform m v"
      by (intro exI conjI)
  qed
  from A B C D E show ?thesis
    by (intro conjI)
qed

theorem outbound_write_first_value_witness:
  "MD_Get (HeaderMD \<lparr>HeaderMD = [(''processing-time'', [''200ms'', ''300ms''])], TrailerMD = []\<rparr>)
     (GRPCMetadata rule_processing_time) = ''200ms'' # [''300ms'']
   \<and> ResponseModifier (NewHeaderMapper (Some (config_of [rule_processing_time])))
       context_response []
     = Inr ([(''X-Processing-Time'', [''Duration: 200ms''])], [])
   \<and> (\<exists>w' log'. ResponseModifier (NewHeaderMapper (Some (config_of [rule_processing_time])))
                   context_response [] = Inr (w', log')
         \<and> Header_Get w' (HTTPHeader rule_processing_time)
             = applyTransform rule_processing_time ''200ms'')"
proof -
  let ?smd = "\<lparr>HeaderMD = [(''processing-time'', [''200ms'', ''300ms''])], TrailerMD = []\<rparr>"
  have h1: "Direction rule_processing_time \<noteq> Incoming"
    by code_simp
  have h2: "serverMetadata context_response = Some ?smd"
    by code_simp
  have h3: "Mappings (config_of [rule_processing_time]) = [] @ rule_processing_time # []"
    by (simp add: config_of_def)
  note thm1 = outbound_write_first_value
    [OF h1 h2 h3, where w = "[]" and v = "''200ms''" and vs = "[''300ms'']"
       and md = MD_New and log = "[]" and x = "[]"]
  have a1: "MD_Get (HeaderMD ?smd) (GRPCMetadata rule_processing_time) = ''200ms'' # [''300ms'']"
    by code_simp
  have a2: "Header_Get (fst (outgoing_loop (config_of [rule_processing_time]) (HeaderMD ?smd) []
      ([], []))) (HTTPHeader rule_processing_time) = []"
    by (simp add: Header_Get_Nil)
  have e1: "ResponseModifier (NewHeaderMapper (Some (config_of [rule_processing_time])))
       context_response []
     = Inr ([(''X-Processing-Time'', [''Duration: 200ms''])], [])"
    by code_simp
  have w3: "\<exists>w' log'. ResponseModifier (NewHeaderMapper (Some (config_of [rule_processing_time])))
                   context_response [] = Inr (w', log')
         \<and> Header_Get w' (HTTPHeader rule_processing_time)
             = applyTransform rule_processing_time ''200ms''"
    using thm1 a1 a2 by simp
  from a1 e1 w3 show ?thesis
    by (intro conjI)
qed

theorem outbound_empty_value_counterexample:
  "Header_Get (Header request_optional_empty) (HTTPHeader rule_optional) = ''''
   \<and> MetadataAnnotator (NewHeaderMapper (Some (config_of [rule_optional]))) request_optional_empty
       = Inr ([(''optional'', [''DEFAULT-VALUE''])], [])
   \<and> MD_Get [(''optional'', [''''])] (GRPCMetadata rule_optional) = ['''']
   \<and> ResponseModifier (NewHeaderMapper (Some (config_of [rule_optional])))
         context_optional_empty []
       = Inr ([(''X-Optional'', [''''])], [])"
  by code_simp

section \<open>Default values\<close>

text \<open>
  Claim C10, as the code has it. Let the metadata keys of the rules be ASCII and a rule
  have a non-empty default value. When its source has no value, the rule uses the default
  as the value before the transformation is applied: what \<open>mapIncomingHeader\<close> and
  \<open>mapOutgoingHeader\<close> write, into a destination that accepts the write, is
  \<open>applyTransform m (DefaultValue m)\<close>, and they return the logger's trace unchanged.
  For the passes: when the rule's direction is other than \<open>Outgoing\<close>, the request's path
  is not skipped and the header has no value, the metadata \<open>MetadataAnnotator\<close> returns
  holds the transformed default under the rule's key; when the rule's direction is other
  than \<open>Incoming\<close>, the context carries server metadata and the metadata key has no value,
  the header \<open>ResponseModifier\<close> returns reads as the transformed default (in both cases
  when the write is accepted and no later rule has the same destination). The \<open>Required\<close>
  flag of a rule with a default has no effect on either pass, and every \<open>Warn\<close> in the
  trace of a pass names the source of a required rule that has no default: a rule with a
  default records no missing-field event.
\<close>

theorem default_value_is_transformed:
  assumes def: "DefaultValue m \<noteq> []"
    and rules: "Mappings cfg = before @ m # after"
    and ascii: "\<forall>m'\<in>set (Mappings cfg). isASCII (GRPCMetadata m')"
  shows
    "(Header_Get (Header req) (HTTPHeader m) = [] \<longrightarrow>
        mapIncomingHeader cfg req m (md, log) =
          (if OverwriteExisting cfg \<or> MD_Get md (GRPCMetadata m) = []
           then MD_Set md (GRPCMetadata m) [applyTransform m (DefaultValue m)] else md, log)
        \<and> MD_Get (fst (mapIncomingHeader cfg req m (MD_New, log))) (GRPCMetadata m) =
            [applyTransform m (DefaultValue m)])
     \<and> (MD_Get smd (GRPCMetadata m) = [] \<longrightarrow>
          mapOutgoingHeader cfg smd m (w, log) =
            (if OverwriteExisting cfg \<or> Header_Get w (HTTPHeader m) = []
             then Header_Set w (HTTPHeader m) (applyTransform m (DefaultValue m)) else w, log)
          \<and> Header_Get (fst (mapOutgoingHeader cfg smd m ([], log))) (HTTPHeader m) =
              applyTransform m (DefaultValue m))
     \<and> snd (mapIncomingHeader cfg req m (md, log)) = log
     \<and> snd (mapOutgoingHeader cfg smd m (w, log)) = log
     \<and> (Direction m \<noteq> Outgoing \<and> URL_Path req \<notin> set (SkipPaths cfg)
          \<and> Header_Get (Header req) (HTTPHeader m) = []
          \<and> (OverwriteExisting cfg
               \<or> MD_Get (fst (incoming_loop cfg req before (MD_New, []))) (GRPCMetadata m) = [])
          \<and> (\<forall>m'\<in>set after. ToLower (GRPCMetadata m') \<noteq> ToLower (GRPCMetadata m))
        \<longrightarrow> (\<exists>md' log'. MetadataAnnotator (NewHeaderMapper (Some cfg)) req = Inr (md', log')
                \<and> MD_Get md' (GRPCMetadata m) = [applyTransform m (DefaultValue m)]))
     \<and> (Direction m \<noteq> Incoming \<and> serverMetadata ctx = Some sm
          \<and> MD_Get (HeaderMD sm) (GRPCMetadata m) = []
          \<and> (OverwriteExisting cfg
               \<or> Header_Get (fst (outgoing_loop cfg (HeaderMD sm) before (w, []))) (HTTPHeader m) = [])
          \<and> (\<forall>m'\<in>set after. CanonicalMIMEHeaderKey (HTTPHeader m')
                                \<noteq> CanonicalMIMEHeaderKey (HTTPHeader m))
        \<longrightarrow> (\<exists>w' log'. ResponseModifier (NewHeaderMapper (Some cfg)) ctx w = Inr (w', log')
                \<and> Header_Get w' (HTTPHeader m) = applyTransform m (DefaultValue m)))
     \<and> MetadataAnnotator
           (NewHeaderMapper (Some (cfg\<lparr>Mappings := before @ m\<lparr>Required := rq\<rparr> # after\<rparr>))) req
         = MetadataAnnotator (NewHeaderMapper (Some cfg)) req
     \<and> ResponseModifier
           (NewHeaderMapper (Some (cfg\<lparr>Mappings := before @ m\<lparr>Required := rq\<rparr> # after\<rparr>))) ctx w
         = ResponseModifier (NewHeaderMapper (Some cfg)) ctx w
     \<and> (\<exists>md' log'. MetadataAnnotator (NewHeaderMapper (Some cfg)) req = Inr (md', log')
          \<and> (\<forall>t h. Warn_log t h \<in> set log' \<longrightarrow>
                (\<exists>m'\<in>set (Mappings cfg).
                   Required m' \<and> DefaultValue m' = [] \<and> HTTPHeader m' = h)))
     \<and> (\<exists>w' log'. ResponseModifier (NewHeaderMapper (Some cfg)) ctx w = Inr (w', log')
          \<and> (\<forall>t k. Warn_log t k \<in> set log' \<longrightarrow>
                (\<exists>m'\<in>set (Mappings cfg).
                   Required m' \<and> DefaultValue m' = [] \<and> GRPCMetadata m' = k)))"
proof -
  let ?k = "GRPCMetadata m"
  let ?h = "HTTPHeader m"
  let ?t = "applyTransform m (DefaultValue m)"
  let ?c' = "cfg\<lparr>Mappings := before @ m\<lparr>Required := rq\<rparr> # after\<rparr>"
  have L1: "snd (mapIncomingHeader cfg req m (md, log)) = log"
    using def by (simp add: mapIncomingHeader_def Let_def)
  have L2: "snd (mapOutgoingHeader cfg smd m (w, log)) = log"
    using def by (simp add: mapOutgoingHeader_def Let_def split: list.splits)
  have inb: "mapIncomingHeader cfg req m (md0, log) =
      (if OverwriteExisting cfg \<or> MD_Get md0 ?k = []
       then MD_Set md0 ?k [?t] else md0, log)"
    if "Header_Get (Header req) ?h = []" for md0
    using mapIncomingHeader_default[OF that def] by simp
  have outb: "mapOutgoingHeader cfg smd m (w0, log) =
      (if OverwriteExisting cfg \<or> Header_Get w0 ?h = []
       then Header_Set w0 ?h ?t else w0, log)"
    if "MD_Get smd ?k = []" for w0
    using mapOutgoingHeader_default[OF that def] by simp
  have S1: "Header_Get (Header req) ?h = [] \<longrightarrow>
        mapIncomingHeader cfg req m (md, log) =
          (if OverwriteExisting cfg \<or> MD_Get md ?k = [] then MD_Set md ?k [?t] else md, log)
        \<and> MD_Get (fst (mapIncomingHeader cfg req m (MD_New, log))) ?k = [?t]"
    by (simp add: inb MD_Get_New MD_Get_Set)
  have S2: "MD_Get smd ?k = [] \<longrightarrow>
          mapOutgoingHeader cfg smd m (w, log) =
            (if OverwriteExisting cfg \<or> Header_Get w ?h = []
             then Header_Set w ?h ?t else w, log)
          \<and> Header_Get (fst (mapOutgoingHeader cfg smd m ([], log))) ?h = ?t"
    by (simp add: outb Header_Get_Nil Header_Get_Set)
  let ?s1 = "incoming_loop cfg req before (MD_New, [])"
  let ?s2 = "mapIncomingHeader cfg req m ?s1"
  have P1: "Direction m \<noteq> Outgoing \<and> URL_Path req \<notin> set (SkipPaths cfg)
          \<and> Header_Get (Header req) ?h = []
          \<and> (OverwriteExisting cfg \<or> MD_Get (fst ?s1) ?k = [])
          \<and> (\<forall>m'\<in>set after. ToLower (GRPCMetadata m') \<noteq> ToLower ?k)
        \<longrightarrow> (\<exists>md' log'. MetadataAnnotator (NewHeaderMapper (Some cfg)) req = Inr (md', log')
                \<and> MD_Get md' ?k = [?t])"
  proof
    assume "Direction m \<noteq> Outgoing \<and> URL_Path req \<notin> set (SkipPaths cfg)
          \<and> Header_Get (Header req) ?h = []
          \<and> (OverwriteExisting cfg \<or> MD_Get (fst ?s1) ?k = [])
          \<and> (\<forall>m'\<in>set after. ToLower (GRPCMetadata m') \<noteq> ToLower ?k)"
    then have dir: "Direction m \<noteq> Outgoing"
      and path: "URL_Path req \<notin> set (SkipPaths cfg)"
      and absent: "Header_Get (Header req) ?h = []"
      and acc: "OverwriteExisting cfg \<or> MD_Get (fst ?s1) ?k = []"
      and fr: "\<forall>m'\<in>set after. ToLower (GRPCMetadata m') \<noteq> ToLower ?k"
      by simp_all
    obtain log' where run: "MetadataAnnotator (NewHeaderMapper (Some cfg)) req =
        Inr (fst (incoming_loop cfg req (Mappings cfg) (MD_New, [])), log')"
      using MetadataAnnotator_run[OF path] by blast
    have full: "incoming_loop cfg req (Mappings cfg) (MD_New, []) =
        incoming_loop cfg req after ?s2"
      using dir by (simp add: rules incoming_loop_append)
    have "MD_Get (fst ?s2) ?k = [?t]"
      using acc by (cases ?s1) (auto simp: mapIncomingHeader_default[OF absent def] MD_Get_Set)
    with incoming_loop_frame[OF fr]
    have "MD_Get (fst (incoming_loop cfg req (Mappings cfg) (MD_New, []))) ?k = [?t]"
      by (simp add: full)
    with run show "\<exists>md' log'. MetadataAnnotator (NewHeaderMapper (Some cfg)) req = Inr (md', log')
                \<and> MD_Get md' ?k = [?t]"
      by (intro exI conjI)
  qed
  let ?M = "HeaderMD sm"
  let ?o1 = "outgoing_loop cfg ?M before (w, [])"
  let ?o2 = "mapOutgoingHeader cfg ?M m ?o1"
  have P2: "Direction m \<noteq> Incoming \<and> serverMetadata ctx = Some sm
          \<and> MD_Get ?M ?k = []
          \<and> (OverwriteExisting cfg \<or> Header_Get (fst ?o1) ?h = [])
          \<and> (\<forall>m'\<in>set after. CanonicalMIMEHeaderKey (HTTPHeader m')
                                \<noteq> CanonicalMIMEHeaderKey ?h)
        \<longrightarrow> (\<exists>w' log'. ResponseModifier (NewHeaderMapper (Some cfg)) ctx w = Inr (w', log')
                \<and> Header_Get w' ?h = ?t)"
  proof
    assume "Direction m \<noteq> Incoming \<and> serverMetadata ctx = Some sm
          \<and> MD_Get ?M ?k = []
          \<and> (OverwriteExisting cfg \<or> Header_Get (fst ?o1) ?h = [])
          \<and> (\<forall>m'\<in>set after. CanonicalMIMEHeaderKey (HTTPHeader m')
                                \<noteq> CanonicalMIMEHeaderKey ?h)"
    then have dir: "Direction m \<noteq> Incoming"
      and sm: "serverMetadata ctx = Some sm"
      and absent: "MD_Get ?M ?k = []"
      and acc: "OverwriteExisting cfg \<or> Header_Get (fst ?o1) ?h = []"
      and fr: "\<forall>m'\<in>set after. CanonicalMIMEHeaderKey (HTTPHeader m')
                                \<noteq> CanonicalMIMEHeaderKey ?h"
      by simp_all
    obtain log' where run: "ResponseModifier (NewHeaderMapper (Some cfg)) ctx w =
        Inr (fst (outgoing_loop cfg ?M (Mappings cfg) (w, [])), log')"
      using ResponseModifier_run[OF sm] by blast
    have full: "outgoing_loop cfg ?M (Mappings cfg) (w, []) = outgoing_loop cfg ?M after ?o2"
      using dir by (simp add: rules outgoing_loop_append)
    have "Header_Get (fst ?o2) ?h = ?t"
      using acc by (cases ?o1) (auto simp: mapOutgoingHeader_default[OF absent def] Header_Get_Set)
    with outgoing_loop_frame[OF fr]
    have "Header_Get (fst (outgoing_loop cfg ?M (Mappings cfg) (w, []))) ?h = ?t"
      by (simp add: full)
    with run show "\<exists>w' log'. ResponseModifier (NewHeaderMapper (Some cfg)) ctx w = Inr (w', log')
                \<and> Header_Get w' ?h = ?t"
      by (intro exI conjI)
  qed
  have pol_in: "incoming_loop ?c' req ms s = incoming_loop cfg req ms s" for ms s
    by (rule incoming_loop_same_policy) simp
  have lp_in: "incoming_loop cfg req (before @ m\<lparr>Required := rq\<rparr> # after) s =
      incoming_loop cfg req (before @ m # after) s" for s
    by (simp add: incoming_loop_append mapIncomingHeader_Required_default[OF def])
  have A1: "MetadataAnnotator (NewHeaderMapper (Some ?c')) req =
      MetadataAnnotator (NewHeaderMapper (Some cfg)) req"
    by (simp add: MetadataAnnotator_def NewHeaderMapper_def pol_in lp_in rules)
  have pol_out: "outgoing_loop ?c' x ms s = outgoing_loop cfg x ms s" for x ms s
    by (rule outgoing_loop_same_policy) simp
  have lp_out: "outgoing_loop cfg x (before @ m\<lparr>Required := rq\<rparr> # after) s =
      outgoing_loop cfg x (before @ m # after) s" for x s
    by (simp add: outgoing_loop_append mapOutgoingHeader_Required_default[OF def])
  have A2: "ResponseModifier (NewHeaderMapper (Some ?c')) ctx w =
      ResponseModifier (NewHeaderMapper (Some cfg)) ctx w"
    by (simp add: ResponseModifier_def NewHeaderMapper_def pol_out lp_out rules
        split: option.splits)
  have B1: "\<exists>md' log'. MetadataAnnotator (NewHeaderMapper (Some cfg)) req = Inr (md', log')
      \<and> (\<forall>t h. Warn_log t h \<in> set log' \<longrightarrow>
            (\<exists>m'\<in>set (Mappings cfg). Required m' \<and> DefaultValue m' = [] \<and> HTTPHeader m' = h))"
  proof (cases "URL_Path req \<in> set (SkipPaths cfg)")
    case True
    then have "MetadataAnnotator (NewHeaderMapper (Some cfg)) req = Inr (MD_New, [])"
      by (simp add: MetadataAnnotator_def skipPaths_New)
    then show ?thesis
      by simp
  next
    case False
    let ?L = "incoming_loop cfg req (Mappings cfg) (MD_New, [])"
    let ?dbg = "if Debug cfg then [Debug_log ''Mapped incoming headers:'' (Some (fst ?L))] else []"
    have r: "MetadataAnnotator (NewHeaderMapper (Some cfg)) req = Inr (fst ?L, snd ?L @ ?dbg)"
      using False by (rule MetadataAnnotator_result)
    have v: "\<forall>t h. Warn_log t h \<in> set (snd ?L @ ?dbg) \<longrightarrow>
        (\<exists>m'\<in>set (Mappings cfg). Required m' \<and> DefaultValue m' = [] \<and> HTTPHeader m' = h)"
    proof (intro allI impI)
      fix t h
      assume "Warn_log t h \<in> set (snd ?L @ ?dbg)"
      then have "Warn_log t h \<in> set (snd ?L)"
        by (auto split: if_splits)
      from incoming_loop_warns[OF this]
      show "\<exists>m'\<in>set (Mappings cfg). Required m' \<and> DefaultValue m' = [] \<and> HTTPHeader m' = h"
        by simp
    qed
    from r v show ?thesis
      by (intro exI conjI)
  qed
  have B2: "\<exists>w' log'. ResponseModifier (NewHeaderMapper (Some cfg)) ctx w = Inr (w', log')
      \<and> (\<forall>t k. Warn_log t k \<in> set log' \<longrightarrow>
            (\<exists>m'\<in>set (Mappings cfg). Required m' \<and> DefaultValue m' = [] \<and> GRPCMetadata m' = k))"
  proof (cases "serverMetadata ctx")
    case None
    then have "ResponseModifier (NewHeaderMapper (Some cfg)) ctx w = Inr (w, [])"
      by (simp add: ResponseModifier_def)
    then show ?thesis
      by simp
  next
    case (Some x)
    let ?L = "outgoing_loop cfg (HeaderMD x) (Mappings cfg) (w, [])"
    let ?dbg = "if Debug cfg then [Debug_log ''Mapped outgoing headers to response'' None] else []"
    have r: "ResponseModifier (NewHeaderMapper (Some cfg)) ctx w = Inr (fst ?L, snd ?L @ ?dbg)"
      using Some by (rule ResponseModifier_result)
    have v: "\<forall>t k. Warn_log t k \<in> set (snd ?L @ ?dbg) \<longrightarrow>
        (\<exists>m'\<in>set (Mappings cfg). Required m' \<and> DefaultValue m' = [] \<and> GRPCMetadata m' = k)"
    proof (intro allI impI)
      fix t k
      assume "Warn_log t k \<in> set (snd ?L @ ?dbg)"
      then have "Warn_log t k \<in> set (snd ?L)"
        by (auto split: if_splits)
      from outgoing_loop_warns[OF this]
      show "\<exists>m'\<in>set (Mappings cfg). Required m' \<and> DefaultValue m' = [] \<and> GRPCMetadata m' = k"
        by simp
    qed
    from r v show ?thesis
      by (intro exI conjI)
  qed
  from S1 S2 L1 L2 P1 P2 A1 A2 B1 B2 show ?thesis
    by (intro conjI)
qed

theorem default_value_is_transformed_witness:
  "mapIncomingHeader (config_of [rule_optional]) request_plain rule_optional (MD_New, [])
     = ([(''optional'', [''DEFAULT-VALUE''])], [])
   \<and> mapOutgoingHeader (config_of [rule_optional]) MD_New rule_optional ([], [])
     = ([(''X-Optional'', [''DEFAULT-VALUE''])], [])
   \<and> (\<exists>md' log'. MetadataAnnotator (NewHeaderMapper (Some (config_of [rule_optional])))
                    request_plain = Inr (md', log')
         \<and> MD_Get md' (GRPCMetadata rule_optional) = [''DEFAULT-VALUE''])
   \<and> (\<exists>w' log'. ResponseModifier (NewHeaderMapper (Some (config_of [rule_optional])))
                   context_response [] = Inr (w', log')
         \<and> Header_Get w' (HTTPHeader rule_optional) = ''DEFAULT-VALUE'')"
proof -
  let ?sm = "\<lparr>HeaderMD = [(''processing-time'', [''200ms'', ''300ms''])], TrailerMD = []\<rparr>"
  have h1: "DefaultValue rule_optional \<noteq> []"
    by code_simp
  have h2: "Mappings (config_of [rule_optional]) = [] @ rule_optional # []"
    by (simp add: config_of_def)
  have h3: "\<forall>m'\<in>set (Mappings (config_of [rule_optional])). isASCII (GRPCMetadata m')"
    by code_simp
  note thm1 = default_value_is_transformed
    [OF h1 h2 h3, where req = request_plain and md = MD_New and log = "[]" and smd = MD_New
       and w = "[]" and ctx = context_response and sm = ?sm and rq = False]
  have a1: "Header_Get (Header request_plain) (HTTPHeader rule_optional) = []"
    by code_simp
  have a2: "Direction rule_optional \<noteq> Outgoing" "Direction rule_optional \<noteq> Incoming"
    by code_simp+
  have a3: "URL_Path request_plain \<notin> set (SkipPaths (config_of [rule_optional]))"
    by code_simp
  have a4: "MD_Get (fst (incoming_loop (config_of [rule_optional]) request_plain []
      (MD_New, []))) (GRPCMetadata rule_optional) = []"
    by (simp add: MD_Get_New)
  have a5: "serverMetadata context_response = Some ?sm"
    by code_simp
  have a6: "MD_Get (HeaderMD ?sm) (GRPCMetadata rule_optional) = []"
    by code_simp
  have a7: "Header_Get (fst (outgoing_loop (config_of [rule_optional]) (HeaderMD ?sm) []
      ([], []))) (HTTPHeader rule_optional) = []"
    by (simp add: Header_Get_Nil)
  have e1: "(MD_Set MD_New (GRPCMetadata rule_optional)
               [applyTransform rule_optional (DefaultValue rule_optional)], [] :: log_call list)
      = ([(''optional'', [''DEFAULT-VALUE''])], [])"
    by code_simp
  have e2: "(Header_Set [] (HTTPHeader rule_optional)
               (applyTransform rule_optional (DefaultValue rule_optional)), [] :: log_call list)
      = ([(''X-Optional'', [''DEFAULT-VALUE''])], [])"
    by code_simp
  have e3: "applyTransform rule_optional (DefaultValue rule_optional) = ''DEFAULT-VALUE''"
    by code_simp
  note s1 = thm1[THEN conjunct1]
  note s2 = thm1[THEN conjunct2, THEN conjunct1]
  note p1 = thm1[THEN conjunct2, THEN conjunct2, THEN conjunct2, THEN conjunct2, THEN conjunct1]
  note p2 = thm1[THEN conjunct2, THEN conjunct2, THEN conjunct2, THEN conjunct2, THEN conjunct2,
      THEN conjunct1]
  have w1: "mapIncomingHeader (config_of [rule_optional]) request_plain rule_optional (MD_New, [])
     = ([(''optional'', [''DEFAULT-VALUE''])], [])"
    using s1 a1 e1 by (simp add: MD_Get_New)
  have w2: "mapOutgoingHeader (config_of [rule_optional]) MD_New rule_optional ([], [])
     = ([(''X-Optional'', [''DEFAULT-VALUE''])], [])"
    using s2 e2 by (simp add: MD_Get_New Header_Get_Nil)
  have w3: "\<exists>md' log'. MetadataAnnotator (NewHeaderMapper (Some (config_of [rule_optional])))
                    request_plain = Inr (md', log')
         \<and> MD_Get md' (GRPCMetadata rule_optional) = [''DEFAULT-VALUE'']"
    using p1 a1 a2 a3 a4 e3 by simp
  have w4: "\<exists>w' log'. ResponseModifier (NewHeaderMapper (Some (config_of [rule_optional])))
                   context_response [] = Inr (w', log')
         \<and> Header_Get w' (HTTPHeader rule_optional) = ''DEFAULT-VALUE''"
    using p2 a2 a5 a6 a7 e3 by simp
  from w1 w2 w3 w4 show ?thesis
    by (intro conjI)
qed

theorem default_needs_active_rule_counterexample:
  "DefaultValue rule_optional = ''default-value''
   \<and> Header_Get (Header request_health) (HTTPHeader rule_optional) = []
   \<and> MetadataAnnotator
         (NewHeaderMapper (Some ((config_of [rule_optional])\<lparr>SkipPaths := [''/health'']\<rparr>)))
         request_health = Inr (MD_New, [])
   \<and> MD_Get MD_New (GRPCMetadata rule_optional)
       \<noteq> [applyTransform rule_optional (DefaultValue rule_optional)]
   \<and> serverMetadata context_user = None
   \<and> ResponseModifier (NewHeaderMapper (Some (config_of [rule_optional]))) context_user []
       = Inr ([], [])
   \<and> Direction rule_optional_incoming = Incoming
   \<and> DefaultValue rule_optional_incoming = ''default-value''
   \<and> MD_Get [(''processing-time'', [''200ms'', ''300ms''])] (GRPCMetadata rule_optional_incoming) = []
   \<and> ResponseModifier (NewHeaderMapper (Some (config_of [rule_optional_incoming])))
         context_response [] = Inr ([], [])
   \<and> Header_Get [] (HTTPHeader rule_optional)
       \<noteq> applyTransform rule_optional (DefaultValue rule_optional)"
  by code_simp

section \<open>The interceptors\<close>

lemma empty_loop_body: "foldl (\<lambda>newMD mapping. newMD) x ms = x"
  by (induction ms) simp_all

lemma processIncomingMetadata_copies:
  "processIncomingMetadata hm ctx =
     (case FromIncomingContext ctx of
        None \<Rightarrow> Inr ctx
      | Some md \<Rightarrow>
          (case config hm of
             None \<Rightarrow> Inl NilPointerDereference
           | Some cfg \<Rightarrow>
               Inr (NewIncomingContext ctx (foldl (\<lambda>newMD (k, v). MD_Set newMD k v) MD_New md))))"
  by (simp add: processIncomingMetadata_def Let_def empty_loop_body
      split: option.splits)

lemma lower_byte_idem: "lower_byte (lower_byte c) = lower_byte c"
  by (auto simp: lower_byte_def upper_letters_def lower_letters_def split: option.splits if_splits)

lemma ToLower_idem: "ToLower (ToLower k) = ToLower k"
  by (induction k) (simp_all add: ToLower_def lower_byte_idem)

lemma lowered_keys_distinct:
  "distinct (map fst acc) \<Longrightarrow>
     distinct (map fst (foldl (\<lambda>out (k, v). AList.update (ToLower k) v out) acc raw))"
  by (induction raw arbitrary: acc) (auto simp: distinct_update)

lemma lowered_keys_lower:
  "\<forall>k\<in>fst ` set acc. ToLower k = k \<Longrightarrow>
     \<forall>k\<in>fst ` set (foldl (\<lambda>out (k, v). AList.update (ToLower k) v out) acc raw). ToLower k = k"
proof (induction raw arbitrary: acc)
  case Nil
  then show ?case by simp
next
  case (Cons kv raw)
  obtain a b where kv: "kv = (a, b)"
    by (cases kv)
  have "\<forall>k\<in>fst ` set (AList.update (ToLower a) b acc). ToLower k = k"
    using Cons.prems by (simp add: dom_update ToLower_idem)
  from Cons.IH[OF this] show ?case
    by (simp add: kv)
qed

lemma copy_loop_reads:
  "distinct (map fst md) \<Longrightarrow> \<forall>k\<in>fst ` set md. ToLower k = k \<Longrightarrow>
     MD_Get (foldl (\<lambda>newMD (k, v). MD_Set newMD k v) acc md) k =
       (case map_of md (ToLower k) of
          None \<Rightarrow> MD_Get acc k
        | Some vs \<Rightarrow> if vs = [] then MD_Get acc k else vs)"
proof (induction md arbitrary: acc)
  case Nil
  show ?case by simp
next
  case (Cons kv md)
  obtain k0 v0 where kv: "kv = (k0, v0)"
    by (cases kv)
  have low: "ToLower k0 = k0" and notin: "map_of md k0 = None"
    using Cons.prems by (auto simp: kv map_of_eq_None_iff)
  have ih: "MD_Get (foldl (\<lambda>newMD (k, v). MD_Set newMD k v) (MD_Set acc k0 v0) md) k =
       (case map_of md (ToLower k) of
          None \<Rightarrow> MD_Get (MD_Set acc k0 v0) k
        | Some vs \<Rightarrow> if vs = [] then MD_Get (MD_Set acc k0 v0) k else vs)"
    using Cons.prems by (intro Cons.IH) (auto simp: kv)
  show ?case
    by (cases "ToLower k = k0") (auto simp: kv ih low notin MD_Get_Set split: option.splits)
qed

lemma copy_reads_same:
  assumes "FromIncomingContext ctx = Some md"
  shows "MD_Get (foldl (\<lambda>newMD (k, v). MD_Set newMD k v) MD_New md) k = MD_Get md k"
proof -
  from assms obtain raw where md: "md = foldl (\<lambda>out (k, v). AList.update (ToLower k) v out) [] raw"
    by (auto simp: FromIncomingContext_def split: option.splits)
  have d: "distinct (map fst md)"
    unfolding md by (rule lowered_keys_distinct) simp
  have l: "\<forall>k\<in>fst ` set md. ToLower k = k"
    unfolding md by (rule lowered_keys_lower) simp
  show ?thesis
    by (simp add: copy_loop_reads[OF d l] MD_Get_New) (simp add: MD_Get_def MD_New_def split: option.splits)
qed

lemma FromIncomingContext_None: "incomingMD ctx = None \<Longrightarrow> FromIncomingContext ctx = None"
  by (simp add: FromIncomingContext_def)

text \<open>
  Claim C4, as the code has it. When the call's full method is in the skip set, the
  unary and the stream interceptor invoke the handler with the context they were given.
  Otherwise a context that carries no incoming metadata is passed on as it is, and a
  context that carries incoming metadata is rebound to a copy of that metadata (each
  entry set again under its lower-cased key, an entry without values left out): the
  copy does not depend on the mapping rules, none of which is applied, and every key
  reads in the copy as it reads in the incoming metadata.
\<close>

theorem interceptor_rebinds_copy_of_metadata:
  "(skipPaths hm (UnaryServerInfo.FullMethod info) \<longrightarrow>
      UnaryServerInterceptor hm ctx req info handler = Inr (handler ctx req))
   \<and> (\<not> skipPaths hm (UnaryServerInfo.FullMethod info) \<and> incomingMD ctx = None \<longrightarrow>
        UnaryServerInterceptor hm ctx req info handler = Inr (handler ctx req))
   \<and> (\<not> skipPaths hm (UnaryServerInfo.FullMethod info) \<and> FromIncomingContext ctx = Some md
        \<and> config hm = Some cfg \<longrightarrow>
        UnaryServerInterceptor hm ctx req info handler =
          Inr (handler (NewIncomingContext ctx
                 (foldl (\<lambda>newMD (k, v). MD_Set newMD k v) MD_New md)) req))
   \<and> (skipPaths hm (StreamServerInfo.FullMethod sinfo) \<longrightarrow>
        StreamServerInterceptor hm srv ss sinfo shandler = Inr (shandler srv ss))
   \<and> (\<not> skipPaths hm (StreamServerInfo.FullMethod sinfo) \<and> incomingMD (stream_Context ss) = None
        \<longrightarrow> StreamServerInterceptor hm srv ss sinfo shandler = Inr (shandler srv ss))
   \<and> (\<not> skipPaths hm (StreamServerInfo.FullMethod sinfo)
        \<and> FromIncomingContext (stream_Context ss) = Some md \<and> config hm = Some cfg \<longrightarrow>
        StreamServerInterceptor hm srv ss sinfo shandler =
          Inr (shandler srv (ss\<lparr>stream_Context := NewIncomingContext (stream_Context ss)
                 (foldl (\<lambda>newMD (k, v). MD_Set newMD k v) MD_New md)\<rparr>)))
   \<and> (FromIncomingContext ctx = Some md \<longrightarrow>
        MD_Get (foldl (\<lambda>newMD (k, v). MD_Set newMD k v) MD_New md) key = MD_Get md key)"
  using copy_reads_same[of ctx md key]
  by (simp add: UnaryServerInterceptor_def StreamServerInterceptor_def
      processIncomingMetadata_copies FromIncomingContext_None)

theorem interceptor_rebinds_copy_of_metadata_witness:
  "UnaryServerInterceptor (NewHeaderMapper (Some (config_of [rule_user]))) context_user ''request''
     \<lparr>UnaryServerInfo.FullMethod = ''/test.Service/Method''\<rparr> (\<lambda>c r. (c, r))
   = Inr (NewIncomingContext context_user
            (foldl (\<lambda>newMD (k, v). MD_Set newMD k v) MD_New [(''x-user-id'', [''12345''])]),
          ''request'')
   \<and> UnaryServerInterceptor
       (NewHeaderMapper (Some ((config_of [rule_user])\<lparr>SkipPaths := [''/health'']\<rparr>)))
       context_user ''request'' \<lparr>UnaryServerInfo.FullMethod = ''/health''\<rparr> (\<lambda>c r. (c, r))
     = Inr (context_user, ''request'')"
proof -
  have a1: "\<not> skipPaths (NewHeaderMapper (Some (config_of [rule_user])))
      (UnaryServerInfo.FullMethod \<lparr>UnaryServerInfo.FullMethod = ''/test.Service/Method''\<rparr>)"
    by code_simp
  have a2: "FromIncomingContext context_user = Some [(''x-user-id'', [''12345''])]"
    by code_simp
  have a3: "config (NewHeaderMapper (Some (config_of [rule_user]))) = Some (config_of [rule_user])"
    by (rule config_New)
  have a4: "skipPaths (NewHeaderMapper (Some ((config_of [rule_user])\<lparr>SkipPaths := [''/health'']\<rparr>)))
      (UnaryServerInfo.FullMethod \<lparr>UnaryServerInfo.FullMethod = ''/health''\<rparr>)"
    by code_simp
  note thm1 = interceptor_rebinds_copy_of_metadata
    [where hm = "NewHeaderMapper (Some (config_of [rule_user]))" and ctx = context_user
       and info = "\<lparr>UnaryServerInfo.FullMethod = ''/test.Service/Method''\<rparr>"
       and md = "[(''x-user-id'', [''12345''])]" and cfg = "config_of [rule_user]"
       and req = "''request''" and handler = "\<lambda>c r. (c, r)"
       and sinfo = "\<lparr>StreamServerInfo.FullMethod = ''/health'', IsClientStream = False,
                     IsServerStream = True\<rparr>"
       and srv = "()" and ss = "\<lparr>stream_Context = context_user\<rparr>"
       and shandler = "\<lambda>s st. st" and key = "''user-id''"]
  note thm2 = interceptor_rebinds_copy_of_metadata
    [where hm = "NewHeaderMapper (Some ((config_of [rule_user])\<lparr>SkipPaths := [''/health'']\<rparr>))"
       and ctx = context_user and info = "\<lparr>UnaryServerInfo.FullMethod = ''/health''\<rparr>"
       and md = "[(''x-user-id'', [''12345''])]" and cfg = "config_of [rule_user]"
       and req = "''request''" and handler = "\<lambda>c r. (c, r)"
       and sinfo = "\<lparr>StreamServerInfo.FullMethod = ''/health'', IsClientStream = False,
                     IsServerStream = True\<rparr>"
       and srv = "()" and ss = "\<lparr>stream_Context = context_user\<rparr>"
       and shandler = "\<lambda>s st. st" and key = "''user-id''"]
  have w1: "UnaryServerInterceptor (NewHeaderMapper (Some (config_of [rule_user]))) context_user
      ''request'' \<lparr>UnaryServerInfo.FullMethod = ''/test.Service/Method''\<rparr> (\<lambda>c r. (c, r))
   = Inr (NewIncomingContext context_user
            (foldl (\<lambda>newMD (k, v). MD_Set newMD k v) MD_New [(''x-user-id'', [''12345''])]),
          ''request'')"
    using thm1 a1 a2 a3 by blast
  have w2: "UnaryServerInterceptor
       (NewHeaderMapper (Some ((config_of [rule_user])\<lparr>SkipPaths := [''/health'']\<rparr>)))
       context_user ''request'' \<lparr>UnaryServerInfo.FullMethod = ''/health''\<rparr> (\<lambda>c r. (c, r))
     = Inr (context_user, ''request'')"
    using thm2 a4 by blast
  from w1 w2 show ?thesis
    by (intro conjI)
qed

theorem interceptor_rekeys_counterexample:
  "UnaryServerInterceptor (NewHeaderMapper (Some (config_of [rule_user]))) context_user ''request''
     \<lparr>UnaryServerInfo.FullMethod = ''/test.Service/Method''\<rparr> (\<lambda>c r. incomingMD c)
   = Inr (Some [(''x-user-id'', [''12345''])])
   \<and> MD_Get [(''x-user-id'', [''12345''])] (GRPCMetadata rule_user) = []
   \<and> MD_Get [(''x-user-id'', [''12345''])] (GRPCMetadata rule_user) \<noteq> [''12345'']"
  by code_simp

section \<open>Case sensitivity\<close>

text \<open>
  Claim C5, as the code has it. \<open>MetadataAnnotator\<close> never consults \<open>CaseSensitive\<close>: its
  result is the same for both values of the policy. The header \<open>X-User-Id\<close> matches a
  rule declared as \<open>x-user-id\<close> (and one declared as \<open>X-User-ID\<close>) whether \<open>CaseSensitive\<close>
  is true or false. \<open>ResponseModifier\<close> does not consult the policy either.
\<close>

theorem inbound_lookup_ignores_case_policy:
  "MetadataAnnotator (NewHeaderMapper (Some (cfg\<lparr>CaseSensitive := b\<rparr>))) req
     = MetadataAnnotator (NewHeaderMapper (Some cfg)) req
   \<and> ResponseModifier (NewHeaderMapper (Some (cfg\<lparr>CaseSensitive := b\<rparr>))) ctx w
     = ResponseModifier (NewHeaderMapper (Some cfg)) ctx w
   \<and> MetadataAnnotator (NewHeaderMapper (Some ((config_of [rule_user_lower])\<lparr>CaseSensitive := b\<rparr>)))
       request_user = Inr ([(''user-id'', [''12345''])], [])
   \<and> MetadataAnnotator (NewHeaderMapper (Some ((config_of [rule_user])\<lparr>CaseSensitive := b\<rparr>)))
       request_user = Inr ([(''user-id'', [''12345''])], [])"
proof -
  have indep: "MetadataAnnotator (NewHeaderMapper (Some (c\<lparr>CaseSensitive := b\<rparr>))) r
     = MetadataAnnotator (NewHeaderMapper (Some c)) r" for c r
    by (simp add: MetadataAnnotator_def NewHeaderMapper_def
        incoming_loop_same_policy[of "c\<lparr>CaseSensitive := b\<rparr>" c])
  have e1: "MetadataAnnotator (NewHeaderMapper (Some (config_of [rule_user_lower]))) request_user
      = Inr ([(''user-id'', [''12345''])], [])"
    by code_simp
  have e2: "MetadataAnnotator (NewHeaderMapper (Some (config_of [rule_user]))) request_user
      = Inr ([(''user-id'', [''12345''])], [])"
    by code_simp
  have outi: "ResponseModifier (NewHeaderMapper (Some (cfg\<lparr>CaseSensitive := b\<rparr>))) ctx w
     = ResponseModifier (NewHeaderMapper (Some cfg)) ctx w"
    by (simp add: ResponseModifier_def NewHeaderMapper_def
        outgoing_loop_same_policy[of "cfg\<lparr>CaseSensitive := b\<rparr>" cfg] split: option.splits)
  from indep[of cfg req] outi e1 e2 show ?thesis
    by (simp only: indep)
qed

theorem inbound_lookup_ignores_case_policy_witness:
  "MetadataAnnotator (NewHeaderMapper (Some ((config_of [rule_user_lower])\<lparr>CaseSensitive := True\<rparr>)))
       request_user = Inr ([(''user-id'', [''12345''])], [])
   \<and> MetadataAnnotator (NewHeaderMapper (Some ((config_of [rule_user_lower])\<lparr>CaseSensitive := False\<rparr>)))
       request_user = Inr ([(''user-id'', [''12345''])], [])"
  using inbound_lookup_ignores_case_policy[where b = True]
    inbound_lookup_ignores_case_policy[where b = False]
  by blast

theorem case_sensitive_lookup_counterexample:
  "CaseSensitive ((config_of [rule_user_lower])\<lparr>CaseSensitive := True\<rparr>)
   \<and> HTTPHeader rule_user_lower = ''x-user-id''
   \<and> Header request_user = [(''X-User-Id'', [''12345''])]
   \<and> MetadataAnnotator (NewHeaderMapper (Some ((config_of [rule_user_lower])\<lparr>CaseSensitive := True\<rparr>)))
       request_user = Inr ([(''user-id'', [''12345''])], [])"
  by code_simp

section \<open>Validation\<close>

lemma Validate_loop_None:
  "(Validate_loop i ms = None) = (\<forall>m\<in>set ms. HTTPHeader m \<noteq> [] \<and> GRPCMetadata m \<noteq> [])"
  by (induction ms arbitrary: i) auto

lemma Validate_loop_no_duplicate: "Validate_loop i ms \<noteq> Some (DuplicateMapping key da db)"
  by (induction ms arbitrary: i) auto

lemma ValidateConfig_loop_seen:
  "\<exists>m\<in>set ms. seen (mapping_key m) \<noteq> None \<Longrightarrow> ValidateConfig_loop i seen ms \<noteq> None"
proof (induction ms arbitrary: i seen)
  case Nil
  then show ?case by simp
next
  case (Cons a ms)
  show ?case
  proof (cases "HTTPHeader a = [] \<or> GRPCMetadata a = [] \<or> seen (mapping_key a) \<noteq> None")
    case True
    then show ?thesis
      by (auto split: option.splits)
  next
    case False
    with Cons.prems have "\<exists>m\<in>set ms. (seen(mapping_key a \<mapsto> a)) (mapping_key m) \<noteq> None"
      by auto
    then have ih: "ValidateConfig_loop (Suc i) (seen(mapping_key a \<mapsto> a)) ms \<noteq> None"
      by (rule Cons.IH)
    have step: "ValidateConfig_loop i seen (a # ms) =
        ValidateConfig_loop (Suc i) (seen(mapping_key a \<mapsto> a)) ms"
      using False by simp
    show ?thesis
      unfolding step by (rule ih)
  qed
qed

lemma ValidateConfig_loop_duplicate:
  assumes "mapping_key a = mapping_key b"
  shows "ValidateConfig_loop i seen (xs @ a # ys @ b # zs) \<noteq> None"
proof (induction xs arbitrary: i seen)
  case Nil
  show ?case
  proof (cases "HTTPHeader a = [] \<or> GRPCMetadata a = [] \<or> seen (mapping_key a) \<noteq> None")
    case True
    then show ?thesis
      by (auto split: option.splits)
  next
    case False
    have "\<exists>m\<in>set (ys @ b # zs). (seen(mapping_key a \<mapsto> a)) (mapping_key m) \<noteq> None"
      using assms by auto
    then have ih: "ValidateConfig_loop (Suc i) (seen(mapping_key a \<mapsto> a)) (ys @ b # zs) \<noteq> None"
      by (rule ValidateConfig_loop_seen)
    have step: "ValidateConfig_loop i seen ([] @ a # ys @ b # zs) =
        ValidateConfig_loop (Suc i) (seen(mapping_key a \<mapsto> a)) (ys @ b # zs)"
      using False by simp
    show ?thesis
      unfolding step by (rule ih)
  qed
next
  case (Cons x xs)
  show ?case
  proof (cases "HTTPHeader x = [] \<or> GRPCMetadata x = [] \<or> seen (mapping_key x) \<noteq> None")
    case True
    then show ?thesis
      by (auto split: option.splits)
  next
    case False
    have ih: "ValidateConfig_loop (Suc i) (seen(mapping_key x \<mapsto> x)) (xs @ a # ys @ b # zs) \<noteq> None"
      by (rule Cons.IH)
    have step: "ValidateConfig_loop i seen ((x # xs) @ a # ys @ b # zs) =
        ValidateConfig_loop (Suc i) (seen(mapping_key x \<mapsto> x)) (xs @ a # ys @ b # zs)"
      using False by simp
    show ?thesis
      unfolding step by (rule ih)
  qed
qed

lemma ValidateConfig_loop_kind:
  "\<forall>m\<in>set ms. HTTPHeader m \<noteq> [] \<and> GRPCMetadata m \<noteq> [] \<Longrightarrow>
     ValidateConfig_loop i seen ms = None
     \<or> (\<exists>key da db. ValidateConfig_loop i seen ms = Some (DuplicateMapping key da db))"
  by (induction ms arbitrary: i seen) (auto split: option.splits)

text \<open>
  Claim C7. \<open>Validate\<close> returns an error exactly when the configuration is nil or some
  mapping has an empty HTTP header name or an empty metadata key, and the error is never
  a duplicate-mapping error. \<open>ValidateConfig\<close> returns an error for a configuration in
  which two mappings have the same pair of names; when all names are non-empty, that error
  is a duplicate-mapping error, and \<open>Validate\<close> accepts the same configuration.
\<close>

theorem Validate_checks_names_only:
  "(Validate hm \<noteq> None) =
      (config hm = None
       \<or> (\<exists>cfg m. config hm = Some cfg \<and> m \<in> set (Mappings cfg)
             \<and> (HTTPHeader m = [] \<or> GRPCMetadata m = [])))
   \<and> Validate hm \<noteq> Some (DuplicateMapping key da db)
   \<and> (Mappings cfg = xs @ a # ys @ b # zs \<and> HTTPHeader a = HTTPHeader b
        \<and> GRPCMetadata a = GRPCMetadata b \<longrightarrow> ValidateConfig (Some cfg) \<noteq> None)
   \<and> (Mappings cfg = xs @ a # ys @ b # zs \<and> HTTPHeader a = HTTPHeader b
        \<and> GRPCMetadata a = GRPCMetadata b
        \<and> (\<forall>m\<in>set (Mappings cfg). HTTPHeader m \<noteq> [] \<and> GRPCMetadata m \<noteq> []) \<longrightarrow>
        (\<exists>k e1 e2. ValidateConfig (Some cfg) = Some (DuplicateMapping k e1 e2))
        \<and> Validate (NewHeaderMapper (Some cfg)) = None)"
proof -
  have A: "(Validate hm \<noteq> None) =
      (config hm = None
       \<or> (\<exists>cfg m. config hm = Some cfg \<and> m \<in> set (Mappings cfg)
             \<and> (HTTPHeader m = [] \<or> GRPCMetadata m = [])))"
    by (cases "config hm") (auto simp: Validate_def Validate_loop_None)
  have B: "Validate hm \<noteq> Some (DuplicateMapping key da db)"
    by (cases "config hm") (simp_all add: Validate_def Validate_loop_no_duplicate)
  have dup: "ValidateConfig (Some cfg) \<noteq> None"
    if "Mappings cfg = xs @ a # ys @ b # zs" "HTTPHeader a = HTTPHeader b"
      "GRPCMetadata a = GRPCMetadata b"
  proof -
    have "mapping_key a = mapping_key b"
      using that by (simp add: mapping_key_def)
    from ValidateConfig_loop_duplicate[OF this] that(1) show ?thesis
      by (simp add: ValidateConfig_def)
  qed
  have kind: "\<exists>k e1 e2. ValidateConfig (Some cfg) = Some (DuplicateMapping k e1 e2)"
    if "ValidateConfig (Some cfg) \<noteq> None"
      "\<forall>m\<in>set (Mappings cfg). HTTPHeader m \<noteq> [] \<and> GRPCMetadata m \<noteq> []"
    using ValidateConfig_loop_kind[OF that(2), of 0 Map.empty] that(1)
    by (auto simp: ValidateConfig_def)
  have ok: "Validate (NewHeaderMapper (Some cfg)) = None"
    if "\<forall>m\<in>set (Mappings cfg). HTTPHeader m \<noteq> [] \<and> GRPCMetadata m \<noteq> []"
    using that by (simp add: Validate_def config_New Validate_loop_None)
  from A B dup kind ok show ?thesis
    by blast
qed

theorem Validate_checks_names_only_witness:
  "Validate (NewHeaderMapper (Some (config_of [rule_user, rule_auth, rule_user]))) = None
   \<and> ValidateConfig (Some (config_of [rule_user, rule_auth, rule_user]))
       = Some (DuplicateMapping ''X-User-ID->user-id'' Incoming Incoming)
   \<and> Validate \<lparr>config = None, skipPaths = (\<lambda>p. False)\<rparr> \<noteq> None"
proof -
  have e1: "ValidateConfig (Some (config_of [rule_user, rule_auth, rule_user]))
       = Some (DuplicateMapping ''X-User-ID->user-id'' Incoming Incoming)"
    by code_simp
  have h1: "Mappings (config_of [rule_user, rule_auth, rule_user])
      = [] @ rule_user # [rule_auth] @ rule_user # []"
    by (simp add: config_of_def)
  have h2: "\<forall>m\<in>set (Mappings (config_of [rule_user, rule_auth, rule_user])).
      HTTPHeader m \<noteq> [] \<and> GRPCMetadata m \<noteq> []"
    by code_simp
  note thm1 = Validate_checks_names_only
    [where cfg = "config_of [rule_user, rule_auth, rule_user]" and xs = "[]" and a = rule_user
       and ys = "[rule_auth]" and b = rule_user and zs = "[]"
       and hm = "\<lparr>config = None, skipPaths = (\<lambda>p. False)\<rparr>"
       and key = "[]" and da = Incoming and db = Incoming]
  have w1: "Validate (NewHeaderMapper (Some (config_of [rule_user, rule_auth, rule_user]))) = None"
    using thm1 h1 h2 by blast
  have w3: "Validate \<lparr>config = None, skipPaths = (\<lambda>p. False)\<rparr> \<noteq> None"
    using thm1 by simp
  from w1 e1 w3 show ?thesis
    by (intro conjI)
qed

section \<open>The builder\<close>

text \<open>
  Claim C9. On a builder with no mapping (such as \<open>NewBuilder\<close>), \<open>WithTransform\<close>,
  \<open>WithRequired\<close> and \<open>WithDefault\<close> return the builder as it is, without error. On a builder whose mappings
  are \<open>ms @ [m]\<close>, each of them changes one field of the last mapping \<open>m\<close> and nothing
  else: the mappings before it and the fields \<open>SkipPaths\<close>, \<open>CaseSensitive\<close>,
  \<open>OverwriteExisting\<close> and \<open>Debug\<close> of the configuration are the same afterwards.
\<close>

theorem builder_options_change_last_mapping_only:
  assumes "builder_config b = Some c"
  shows
    "(Mappings c = [] \<longrightarrow>
        WithTransform t b = Inr b \<and> WithRequired r b = Inr b \<and> WithDefault d b = Inr b)
     \<and> (Mappings c = ms @ [m] \<longrightarrow>
          WithTransform t b =
            Inr (b\<lparr>builder_config := Some (c\<lparr>Mappings := ms @ [m\<lparr>Transform := t\<rparr>]\<rparr>)\<rparr>)
          \<and> WithRequired r b =
            Inr (b\<lparr>builder_config := Some (c\<lparr>Mappings := ms @ [m\<lparr>Required := r\<rparr>]\<rparr>)\<rparr>)
          \<and> WithDefault d b =
            Inr (b\<lparr>builder_config := Some (c\<lparr>Mappings := ms @ [m\<lparr>DefaultValue := d\<rparr>]\<rparr>)\<rparr>))
     \<and> (\<forall>b' c'. (WithTransform t b = Inr b' \<or> WithRequired r b = Inr b' \<or> WithDefault d b = Inr b')
            \<and> builder_config b' = Some c' \<longrightarrow>
          SkipPaths c' = SkipPaths c \<and> CaseSensitive c' = CaseSensitive c
          \<and> OverwriteExisting c' = OverwriteExisting c \<and> Debug c' = Debug c
          \<and> length (Mappings c') = length (Mappings c)
          \<and> butlast (Mappings c') = butlast (Mappings c))
     \<and> WithTransform t NewBuilder = Inr NewBuilder
     \<and> WithRequired r NewBuilder = Inr NewBuilder
     \<and> WithDefault d NewBuilder = Inr NewBuilder"
  using assms
  by (auto simp: WithTransform_def WithRequired_def WithDefault_def butlast_list_update
      NewBuilder_def zero_Config_def split: if_splits)

theorem builder_options_change_last_mapping_only_witness:
  "WithRequired True NewBuilder = Inr NewBuilder
   \<and> WithDefault ''anonymous'' \<lparr>builder_config = Some (config_of [rule_auth, rule_user])\<rparr>
     = Inr \<lparr>builder_config =
             Some (config_of [rule_auth, rule_user\<lparr>DefaultValue := ''anonymous''\<rparr>])\<rparr>"
proof -
  have h1: "builder_config NewBuilder = Some zero_Config"
    by (simp add: NewBuilder_def)
  have a1: "Mappings zero_Config = []"
    by (simp add: zero_Config_def)
  have h2: "builder_config \<lparr>builder_config = Some (config_of [rule_auth, rule_user])\<rparr>
      = Some (config_of [rule_auth, rule_user])"
    by simp
  have a2: "Mappings (config_of [rule_auth, rule_user]) = [rule_auth] @ [rule_user]"
    by (simp add: config_of_def)
  have w1: "WithRequired True NewBuilder = Inr NewBuilder"
    using builder_options_change_last_mapping_only
      [OF h1, where r = True and t = None and d = "[]" and ms = "[]" and m = rule_user] a1
    by blast
  have "WithDefault ''anonymous'' \<lparr>builder_config = Some (config_of [rule_auth, rule_user])\<rparr>
     = Inr (\<lparr>builder_config = Some (config_of [rule_auth, rule_user])\<rparr>
              \<lparr>builder_config := Some ((config_of [rule_auth, rule_user])
                 \<lparr>Mappings := [rule_auth] @ [rule_user\<lparr>DefaultValue := ''anonymous''\<rparr>]\<rparr>)\<rparr>)"
    using builder_options_change_last_mapping_only
      [OF h2, where d = "''anonymous''" and ms = "[rule_auth]" and m = rule_user
         and t = None and r = True] a2
    by blast
  then have w2: "WithDefault ''anonymous'' \<lparr>builder_config = Some (config_of [rule_auth, rule_user])\<rparr>
     = Inr \<lparr>builder_config =
             Some (config_of [rule_auth, rule_user\<lparr>DefaultValue := ''anonymous''\<rparr>])\<rparr>"
    by (simp add: config_of_def)
  from w1 w2 show ?thesis
    by (intro conjI)
qed


end
